theory Spec2Isabelle
  imports Main "HOL-Library.AList" "HOL-Library.Sublist"
begin

section \<open>Path strings (the POSIX flavour of Node's \<open>path\<close> module)\<close>

text \<open>
  Both agents build every filesystem path with \<^verbatim>\<open>path.join\<close>, \<^verbatim>\<open>path.relative\<close> and
  \<^verbatim>\<open>path.dirname\<close>. Paths are strings; a path is cut into its segments at every slash. A
  \<open>string\<close> holds the UTF-8 bytes of the JavaScript string; the byte of a slash, of a
  backslash or of a dot occurs in it only as that character.
\<close>

fun splitSlash :: "string \<Rightarrow> string list" where
  "splitSlash [] = [[]]"
| "splitSlash (c # cs) =
     (if c = CHR ''/'' then [] # splitSlash cs
      else (case splitSlash cs of [] \<Rightarrow> [[c]] | s # ss \<Rightarrow> (c # s) # ss))"

fun joinSlash :: "string list \<Rightarrow> string" where
  "joinSlash [] = []"
| "joinSlash [s] = s"
| "joinSlash (s # t # ss) = s @ ''/'' @ joinSlash (t # ss)"

text \<open>
  \<^verbatim>\<open>normalizeString(path, allowAboveRoot)\<close>: empty segments and \<^verbatim>\<open>.\<close> are dropped, \<^verbatim>\<open>..\<close>
  removes the segment before it unless there is none or it is itself \<^verbatim>\<open>..\<close>; then \<^verbatim>\<open>..\<close>
  is kept for a relative path and dropped for an absolute one.
\<close>

definition normStep :: "bool \<Rightarrow> string list \<Rightarrow> string \<Rightarrow> string list" where
  "normStep allowAboveRoot res seg =
     (if seg = [] \<or> seg = ''.'' then res
      else if seg = ''..'' then
        (if res \<noteq> [] \<and> last res \<noteq> ''..'' then butlast res
         else if allowAboveRoot then res @ [''..''] else res)
      else res @ [seg])"

definition normalizeString :: "bool \<Rightarrow> string list \<Rightarrow> string list" where
  "normalizeString allowAboveRoot segs = foldl (normStep allowAboveRoot) [] segs"

definition isAbsolute :: "string \<Rightarrow> bool" where
  "isAbsolute p = (case p of [] \<Rightarrow> False | c # _ \<Rightarrow> c = CHR ''/'')"

definition trailingSeparator :: "string \<Rightarrow> bool" where
  "trailingSeparator p = (p \<noteq> [] \<and> last p = CHR ''/'')"

definition posix_normalize :: "string \<Rightarrow> string" where
  "posix_normalize p =
     (if p = [] then ''.''
      else let res = normalizeString (\<not> isAbsolute p) (splitSlash p) in
        if res = [] then
          (if isAbsolute p then ''/'' else if trailingSeparator p then ''./'' else ''.'')
        else (if isAbsolute p then ''/'' else [])
             @ joinSlash res
             @ (if trailingSeparator p then ''/'' else []))"

text \<open>\<^verbatim>\<open>path.join(a, b)\<close>: the non-empty arguments, joined by a slash, normalised.\<close>

definition posix_join :: "string \<Rightarrow> string \<Rightarrow> string" where
  "posix_join a b =
     (if a = [] \<and> b = [] then ''.''
      else if a = [] then posix_normalize b
      else if b = [] then posix_normalize a
      else posix_normalize (a @ ''/'' @ b))"

text \<open>
  The segments the operating system walks for an absolute path string: \<^verbatim>\<open>.\<close> and empty
  segments do nothing, \<^verbatim>\<open>..\<close> steps up and stays at the root.
\<close>

definition pathSegs :: "string \<Rightarrow> string list" where
  "pathSegs p = normalizeString False (splitSlash p)"

text \<open>\<^verbatim>\<open>path.dirname\<close>: trailing slashes are skipped, then everything up to the last slash
  (not counting a slash at index 0) is kept.\<close>

definition posix_dirname :: "string \<Rightarrow> string" where
  "posix_dirname p =
     (case p of [] \<Rightarrow> ''.''
      | c # cs \<Rightarrow>
         (let r = dropWhile (\<lambda>x. x = CHR ''/'') (rev cs);
              t = dropWhile (\<lambda>x. x \<noteq> CHR ''/'') r
          in if t = [] then (if c = CHR ''/'' then ''/'' else ''.'')
             else if c = CHR ''/'' \<and> tl t = [] then ''//''
             else c # rev (tl t)))"

fun commonPrefix :: "string list \<Rightarrow> string list \<Rightarrow> string list" where
  "commonPrefix (x # xs) (y # ys) = (if x = y then x # commonPrefix xs ys else [])"
| "commonPrefix _ _ = []"

text \<open>\<^verbatim>\<open>path.relative(from, to)\<close> for two absolute paths: the empty string when both
  resolve to the same place, otherwise one \<^verbatim>\<open>..\<close> for each segment of \<open>from\<close> below the
  common prefix, followed by the rest of \<open>to\<close>.\<close>

definition posix_relative :: "string \<Rightarrow> string \<Rightarrow> string" where
  "posix_relative from to =
     (let f = pathSegs from; t = pathSegs to; n = length (commonPrefix f t)
      in joinSlash (replicate (length f - n) ''..'' @ drop n t))"

text \<open>\<^verbatim>\<open>s.startsWith(p)\<close> and \<^verbatim>\<open>s.includes(p)\<close> of JavaScript strings.\<close>

fun startsWith :: "string \<Rightarrow> string \<Rightarrow> bool" where
  "startsWith s [] = True"
| "startsWith [] (p # ps) = False"
| "startsWith (c # cs) (p # ps) = (c = p \<and> startsWith cs ps)"

fun includesStr :: "string \<Rightarrow> string \<Rightarrow> bool" where
  "includesStr [] p = (p = [])"
| "includesStr (c # cs) p = (startsWith (c # cs) p \<or> includesStr cs p)"

section \<open>The filesystem\<close>

text \<open>
  A replica's filesystem is a tree whose directories list their entries in the order
  \<^verbatim>\<open>readdir\<close> reports them. File contents are held as the base64 text that crosses the
  transport, modes as the permission bits. Entries that are neither regular files nor
  directories (links, devices) are not represented.
\<close>

datatype node =
    File (content: string) (fmode: nat)
  | Dir (dmode: nat) (entries: "(string \<times> node) list")

datatype errno = ENOENT | ENOTDIR | EISDIR | EEXIST | EBUSY | EINVAL | EACCES

definition defaultFileMode :: nat where "defaultFileMode = 420"
definition defaultDirMode :: nat where "defaultDirMode = 493"

text \<open>
  The agent is taken to own every file and directory and not to be the superuser, so of a
  mode the owner's bits decide: looking a name up in a directory needs the search bit 0100
  of the directory, reading a file or listing a directory needs its read bit 0400. The
  calls that read the tree check these bits; the calls that change it are not refused for
  lack of permission.
\<close>

definition ownerCanRead :: "nat \<Rightarrow> bool" where
  "ownerCanRead m = ((m div 256) mod 2 = 1)"

definition ownerCanSearch :: "nat \<Rightarrow> bool" where
  "ownerCanSearch m = ((m div 64) mod 2 = 1)"

fun resolve :: "node \<Rightarrow> string list \<Rightarrow> errno + node" where
  "resolve n [] = Inr n"
| "resolve (File c m) (s # ss) = Inl ENOTDIR"
| "resolve (Dir m es) (s # ss) =
     (if \<not> ownerCanSearch m then Inl EACCES
      else (case map_of es s of None \<Rightarrow> Inl ENOENT | Some ch \<Rightarrow> resolve ch ss))"

text \<open>A path that ends with a slash names a directory only: where a regular file is, the
  calls fail with \<^verbatim>\<open>ENOTDIR\<close>.\<close>

definition slashAfterFile :: "node \<Rightarrow> string \<Rightarrow> bool" where
  "slashAfterFile fs p =
     (if trailingSeparator p then
        (case resolve fs (pathSegs p) of Inr (File c m) \<Rightarrow> True | _ \<Rightarrow> False)
      else False)"

definition fs_stat :: "node \<Rightarrow> string \<Rightarrow> errno + node" where
  "fs_stat fs p = (if slashAfterFile fs p then Inl ENOTDIR else resolve fs (pathSegs p))"

text \<open>\<^verbatim>\<open>fs.pathExists\<close> is \<^verbatim>\<open>fs.access\<close> with its error turned into \<^verbatim>\<open>false\<close>.\<close>

definition pathExists :: "node \<Rightarrow> string \<Rightarrow> bool" where
  "pathExists fs p = (case fs_stat fs p of Inl _ \<Rightarrow> False | Inr _ \<Rightarrow> True)"

definition isFile :: "node \<Rightarrow> bool" where
  "isFile n = (case n of File _ _ \<Rightarrow> True | Dir _ _ \<Rightarrow> False)"

definition isDirectory :: "node \<Rightarrow> bool" where
  "isDirectory n = (case n of File _ _ \<Rightarrow> False | Dir _ _ \<Rightarrow> True)"

definition statMode :: "node \<Rightarrow> nat" where
  "statMode n = (case n of File _ m \<Rightarrow> m | Dir m _ \<Rightarrow> m)"

definition readFile :: "node \<Rightarrow> string \<Rightarrow> errno + string" where
  "readFile fs p =
     (case fs_stat fs p of Inl e \<Rightarrow> Inl e
      | Inr (File c m) \<Rightarrow> if ownerCanRead m then Inr c else Inl EACCES
      | Inr (Dir m es) \<Rightarrow> Inl EISDIR)"

definition readdir :: "node \<Rightarrow> string \<Rightarrow> errno + (string \<times> node) list" where
  "readdir fs p =
     (case fs_stat fs p of Inl e \<Rightarrow> Inl e
      | Inr (File c m) \<Rightarrow> Inl ENOTDIR
      | Inr (Dir m es) \<Rightarrow> if ownerCanRead m then Inr es else Inl EACCES)"

fun writeAt :: "node \<Rightarrow> string list \<Rightarrow> string \<Rightarrow> errno + node" where
  "writeAt (File c m) [] d = Inr (File d m)"
| "writeAt (Dir m es) [] d = Inl EISDIR"
| "writeAt (File c m) (s # ss) d = Inl ENOTDIR"
| "writeAt (Dir m es) (s # ss) d =
     (case map_of es s of
        None \<Rightarrow> (if ss = [] then Inr (Dir m (AList.update s (File d defaultFileMode) es))
                 else Inl ENOENT)
      | Some ch \<Rightarrow>
          (case writeAt ch ss d of Inl e \<Rightarrow> Inl e
           | Inr ch' \<Rightarrow> Inr (Dir m (AList.update s ch' es))))"

text \<open>\<^verbatim>\<open>fs.writeFile\<close> opens the path for writing, creating the file; a path that ends
  with a slash cannot be opened so.\<close>

definition writeFile :: "node \<Rightarrow> string \<Rightarrow> string \<Rightarrow> errno + node" where
  "writeFile fs p d =
     (if trailingSeparator p then
        (case writeAt fs (pathSegs p) d of
           Inl e \<Rightarrow> Inl e
         | Inr fs' \<Rightarrow> Inl (if slashAfterFile fs p then ENOTDIR else EISDIR))
      else writeAt fs (pathSegs p) d)"

text \<open>\<^verbatim>\<open>fs.ensureDir\<close> (mkdir -p): every missing directory on the way is created; a
  regular file on the way or at the end is an error.\<close>

fun ensureAt :: "node \<Rightarrow> string list \<Rightarrow> errno + node" where
  "ensureAt (Dir m es) [] = Inr (Dir m es)"
| "ensureAt (File c m) [] = Inl EEXIST"
| "ensureAt (File c m) (s # ss) = Inl ENOTDIR"
| "ensureAt (Dir m es) (s # ss) =
     (case ensureAt (case map_of es s of None \<Rightarrow> Dir defaultDirMode [] | Some ch \<Rightarrow> ch) ss of
        Inl e \<Rightarrow> Inl e
      | Inr ch' \<Rightarrow> Inr (Dir m (AList.update s ch' es)))"

definition ensureDir :: "node \<Rightarrow> string \<Rightarrow> errno + node" where
  "ensureDir fs p = ensureAt fs (pathSegs p)"

text \<open>\<^verbatim>\<open>fs.remove\<close> (rm -rf): a missing path is not an error; a regular file on the way
  is.\<close>

fun removeAt :: "node \<Rightarrow> string list \<Rightarrow> errno + node" where
  "removeAt n [] = Inl EBUSY"
| "removeAt (File c m) (s # ss) = Inl ENOTDIR"
| "removeAt (Dir m es) [s] = Inr (Dir m (AList.delete s es))"
| "removeAt (Dir m es) (s # ss) =
     (case map_of es s of
        None \<Rightarrow> Inr (Dir m es)
      | Some ch \<Rightarrow>
          (case removeAt ch ss of Inl e \<Rightarrow> Inl e
           | Inr ch' \<Rightarrow> Inr (Dir m (AList.update s ch' es))))"

definition remove :: "node \<Rightarrow> string \<Rightarrow> errno + node" where
  "remove fs p = (if slashAfterFile fs p then Inl ENOTDIR else removeAt fs (pathSegs p))"

fun chmodAt :: "node \<Rightarrow> string list \<Rightarrow> nat \<Rightarrow> errno + node" where
  "chmodAt (File c m) [] k = Inr (File c k)"
| "chmodAt (Dir m es) [] k = Inr (Dir k es)"
| "chmodAt (File c m) (s # ss) k = Inl ENOTDIR"
| "chmodAt (Dir m es) (s # ss) k =
     (case map_of es s of
        None \<Rightarrow> Inl ENOENT
      | Some ch \<Rightarrow>
          (case chmodAt ch ss k of Inl e \<Rightarrow> Inl e
           | Inr ch' \<Rightarrow> Inr (Dir m (AList.update s ch' es))))"

definition chmod :: "node \<Rightarrow> string \<Rightarrow> nat \<Rightarrow> errno + node" where
  "chmod fs p k =
     (if slashAfterFile fs p then Inl ENOTDIR else chmodAt fs (pathSegs p) (k mod 4096))"

text \<open>
  File contents are held as their padded base64 text, so for the encoding \<^verbatim>\<open>base64\<close>, the one
  both agents send, \<^verbatim>\<open>Buffer.from(content, encoding)\<close> and \<^verbatim>\<open>buffer.toString('base64')\<close>
  leave the text as it is; \<^verbatim>\<open>stats.size\<close> is the number of bytes the text stands for.
\<close>

definition byteLength :: "string \<Rightarrow> nat" where
  "byteLength c = (length c div 4) * 3 - length (filter (\<lambda>x. x = CHR ''='') c)"

definition bufferFrom :: "string \<Rightarrow> string \<Rightarrow> string" where
  "bufferFrom c enc = c"

definition toBase64 :: "string \<Rightarrow> string" where
  "toBase64 c = c"

section \<open>Snapshot entries and transport messages\<close>

record fsEntry =
  e_path :: string
  e_type :: string
  e_size :: "nat option"

text \<open>The payload of \<^verbatim>\<open>fileOperation\<close> (edge to hub).\<close>

record fileOp =
  op_operation :: string
  op_path :: string
  op_content :: "string option"
  op_encoding :: "string option"
  op_newPath :: "string option"
  op_mode :: "nat option"

text \<open>The payload of \<^verbatim>\<open>fileSystemChange\<close> (hub to edge). \<open>ch_content\<close> is \<open>Some s\<close>
  exactly when the field is a string.\<close>

record fsChange =
  ch_event :: string
  ch_path :: string
  ch_type :: "string option"
  ch_content :: "string option"
  ch_encoding :: "string option"
  ch_mode :: "nat option"

record fileContentMsg =
  fc_path :: string
  fc_content :: "string option"
  fc_encoding :: "string option"

record operationErrorMsg =
  oe_message :: string
  oe_operation :: string
  oe_path :: "string option"

section \<open>The snapshot walk\<close>

text \<open>
  \<^verbatim>\<open>getLocalFiles(currentPath, relativeBasePath)\<close> of the edge and
  \<^verbatim>\<open>getFileSystemState(currentPath, relativeBasePath)\<close> of the hub. The listing of
  \<open>currentPath\<close> is passed in; the recursive call on a subdirectory takes that
  directory's own listing, which is what \<^verbatim>\<open>readdir\<close> of the joined absolute path returns
  while the tree does not change under the walk and the walk may read the directory.
\<close>

fun getLocalFilesIn :: "string \<Rightarrow> (string \<times> node) list \<Rightarrow> fsEntry list" where
  "getLocalFilesIn relativeBasePath [] = []"
| "getLocalFilesIn relativeBasePath ((name, n) # rest) =
     (if startsWith name ''.'' then getLocalFilesIn relativeBasePath rest
      else (case n of
          Dir m es \<Rightarrow>
            \<lparr>e_path = posix_join relativeBasePath name, e_type = ''directory'', e_size = None\<rparr>
              # getLocalFilesIn (posix_join relativeBasePath name) es
              @ getLocalFilesIn relativeBasePath rest
        | File c m \<Rightarrow>
            \<lparr>e_path = posix_join relativeBasePath name, e_type = ''file'',
              e_size = Some (byteLength c)\<rparr>
              # getLocalFilesIn relativeBasePath rest))"

definition getLocalFiles :: "node \<Rightarrow> string \<Rightarrow> fsEntry list" where
  "getLocalFiles fs localDir =
     (case readdir fs localDir of Inl e \<Rightarrow> [] | Inr es \<Rightarrow> getLocalFilesIn [] es)"

fun getFileSystemStateIn :: "string \<Rightarrow> (string \<times> node) list \<Rightarrow> fsEntry list" where
  "getFileSystemStateIn relativeBasePath [] = []"
| "getFileSystemStateIn relativeBasePath ((name, n) # rest) =
     (if startsWith name ''.'' then getFileSystemStateIn relativeBasePath rest
      else (case n of
          Dir m es \<Rightarrow>
            \<lparr>e_path = posix_join relativeBasePath name, e_type = ''directory'', e_size = None\<rparr>
              # getFileSystemStateIn (posix_join relativeBasePath name) es
              @ getFileSystemStateIn relativeBasePath rest
        | File c m \<Rightarrow>
            \<lparr>e_path = posix_join relativeBasePath name, e_type = ''file'',
              e_size = Some (byteLength c)\<rparr>
              # getFileSystemStateIn relativeBasePath rest))"

definition getFileSystemState :: "node \<Rightarrow> string \<Rightarrow> fsEntry list" where
  "getFileSystemState fs watchDir =
     (case readdir fs watchDir of Inl e \<Rightarrow> [] | Inr es \<Rightarrow> getFileSystemStateIn [] es)"

section \<open>The edge agent (\<^verbatim>\<open>FileSystemClient\<close>)\<close>

datatype edgeOut = FileOperation fileOp | RequestFileContent string

text \<open>
  The state of one client: its root, its filesystem, the operation ledger
  \<open>activeOperations\<close>, the mode cache \<open>fileModes\<close>, the messages emitted on the socket so
  far (oldest first), the pending \<^verbatim>\<open>setTimeout\<close> callbacks (each the time it is due and
  the key it deletes) and a clock in milliseconds. A handler runs from its start to its
  end without another handler in between.
\<close>

record edge =
  localDir :: string
  efs :: node
  isInitialSync :: bool
  activeOperations :: "string set"
  fileModes :: "string \<rightharpoonup> nat"
  emitted :: "edgeOut list"
  timers :: "(nat \<times> string) list"
  clock :: nat
  watching :: bool

definition emit :: "edgeOut \<Rightarrow> edge \<Rightarrow> edge" where
  "emit m st = st\<lparr>emitted := emitted st @ [m]\<rparr>"

definition baseOp :: "string \<Rightarrow> string \<Rightarrow> fileOp" where
  "baseOp operation p =
     \<lparr>op_operation = operation, op_path = p, op_content = None, op_encoding = None,
      op_newPath = None, op_mode = None\<rparr>"

definition chmodOp :: "string \<Rightarrow> nat \<Rightarrow> fileOp" where
  "chmodOp p m = (baseOp ''chmod'' p)\<lparr>op_mode := Some m\<rparr>"

definition writeOp :: "string \<Rightarrow> string \<Rightarrow> fileOp" where
  "writeOp p c = (baseOp ''write'' p)\<lparr>op_content := Some c, op_encoding := Some ''base64''\<rparr>"

text \<open>\<^verbatim>\<open>setTimeout(() => this.activeOperations.delete(operationKey), 500)\<close>\<close>

definition setTimeoutDelete :: "string \<Rightarrow> nat \<Rightarrow> edge \<Rightarrow> edge" where
  "setTimeoutDelete operationKey ms st = st\<lparr>timers := timers st @ [(clock st + ms, operationKey)]\<rparr>"

text \<open>Time passes: the callbacks that have become due run.\<close>

definition advance :: "nat \<Rightarrow> edge \<Rightarrow> edge" where
  "advance ms st =
     (let t = clock st + ms;
          due = filter (\<lambda>(w, k). w \<le> t) (timers st)
      in st\<lparr>clock := t,
            activeOperations := activeOperations st - set (map snd due),
            timers := filter (\<lambda>(w, k). \<not> w \<le> t) (timers st)\<rparr>)"

text \<open>The \<^verbatim>\<open>try\<close> block of \<^verbatim>\<open>handleLocalChange\<close>; an error of \<^verbatim>\<open>readFile\<close> or
  \<^verbatim>\<open>stat\<close> is caught and logged.\<close>

definition localChangeTry :: "edge \<Rightarrow> string \<Rightarrow> string \<Rightarrow> string \<Rightarrow> string \<Rightarrow> edge" where
  "localChangeTry st event filePath relativePath operationKey =
     (if event = ''add'' \<or> event = ''change'' then
        (case readFile (efs st) filePath of
           Inl e \<Rightarrow> st
         | Inr c \<Rightarrow>
            (case fs_stat (efs st) filePath of
               Inl e \<Rightarrow> st
             | Inr n \<Rightarrow>
                emit (FileOperation (writeOp relativePath (toBase64 c)))
                  (if fileModes st relativePath \<noteq> Some (statMode n mod 512) then
                     emit (FileOperation (chmodOp relativePath (statMode n mod 512)))
                       (st\<lparr>fileModes := (fileModes st)(relativePath \<mapsto> statMode n mod 512)\<rparr>)
                   else st)))
      else if event = ''unlink'' then
        emit (FileOperation (baseOp ''delete'' relativePath))
          (st\<lparr>fileModes := (fileModes st)(relativePath := None)\<rparr>)
      else if event = ''addDir'' then
        (case fs_stat (efs st) filePath of
           Inl e \<Rightarrow> st
         | Inr n \<Rightarrow>
            emit (FileOperation (baseOp ''mkdir'' relativePath))
              (emit (FileOperation (chmodOp relativePath (statMode n mod 512)))
                 (st\<lparr>fileModes := (fileModes st)(relativePath \<mapsto> statMode n mod 512)\<rparr>)))
      else if event = ''unlinkDir'' then
        emit (FileOperation (baseOp ''delete'' relativePath))
          (st\<lparr>fileModes := (fileModes st)(relativePath := None)\<rparr>)
      else st\<lparr>activeOperations := activeOperations st - {operationKey}\<rparr>)"

definition handleLocalChange :: "edge \<Rightarrow> string \<Rightarrow> string \<Rightarrow> edge" where
  "handleLocalChange st event filePath =
     (if isInitialSync st then st
      else let relativePath = posix_relative (localDir st) filePath in
        if relativePath = [] then st
        else let operationKey = event @ ''-'' @ relativePath in
          if operationKey \<in> activeOperations st then st
          else setTimeoutDelete operationKey 500
                 (localChangeTry
                    (st\<lparr>activeOperations := insert operationKey (activeOperations st)\<rparr>)
                    event filePath relativePath operationKey))"

definition applyChmod :: "edge \<Rightarrow> string \<Rightarrow> nat \<Rightarrow> edge" where
  "applyChmod st relativePath mode =
     (case chmod (efs st) (posix_join (localDir st) relativePath) mode of
        Inl e \<Rightarrow> st
      | Inr fs' \<Rightarrow> st\<lparr>efs := fs', fileModes := (fileModes st)(relativePath \<mapsto> mode)\<rparr>)"

text \<open>The \<^verbatim>\<open>try\<close> block of \<^verbatim>\<open>handleServerChange\<close>; an error of a filesystem call is
  caught and logged, what was done before it stays done.\<close>

definition serverChangeTry :: "edge \<Rightarrow> fsChange \<Rightarrow> string \<Rightarrow> edge" where
  "serverChangeTry st data fullPath =
     (if ch_event data = ''add'' \<or> ch_event data = ''change'' then
        (case ch_content data of
           None \<Rightarrow> st
         | Some c \<Rightarrow>
            (case ensureDir (efs st) (posix_dirname fullPath) of
               Inl e \<Rightarrow> st
             | Inr fs1 \<Rightarrow>
                (case writeFile fs1 fullPath
                        (bufferFrom c (case ch_encoding data of None \<Rightarrow> ''base64'' | Some enc \<Rightarrow> enc)) of
                   Inl e \<Rightarrow> st\<lparr>efs := fs1\<rparr>
                 | Inr fs2 \<Rightarrow> st\<lparr>efs := fs2\<rparr>)))
      else if ch_event data = ''unlink'' then
        (case remove (efs st) fullPath of Inl e \<Rightarrow> st | Inr fs' \<Rightarrow> st\<lparr>efs := fs'\<rparr>)
      else if ch_event data = ''addDir'' then
        (case ensureDir (efs st) fullPath of Inl e \<Rightarrow> st | Inr fs' \<Rightarrow> st\<lparr>efs := fs'\<rparr>)
      else if ch_event data = ''unlinkDir'' then
        (case remove (efs st) fullPath of Inl e \<Rightarrow> st | Inr fs' \<Rightarrow> st\<lparr>efs := fs'\<rparr>)
      else st)"

definition handleServerChange :: "edge \<Rightarrow> fsChange \<Rightarrow> edge" where
  "handleServerChange st data =
     (let fullPath = posix_join (localDir st) (ch_path data);
          operationKey = ch_event data @ ''-'' @ ch_path data;
          st1 = serverChangeTry
                  (st\<lparr>activeOperations := insert operationKey (activeOperations st)\<rparr>)
                  data fullPath
      in st1\<lparr>activeOperations := activeOperations st1 - {operationKey}\<rparr>)"

text \<open>The handler of \<^verbatim>\<open>fileSystemChange\<close>. While \<^verbatim>\<open>isInitialSync\<close> is set it only logs
  the events other than \<^verbatim>\<open>add\<close> and \<^verbatim>\<open>addDir\<close> (the \<^verbatim>\<open>return\<close> is commented out) and goes
  on. \<^verbatim>\<open>data.mode\<close> is truthy when it is a number other than 0.\<close>

definition on_fileSystemChange :: "edge \<Rightarrow> fsChange \<Rightarrow> edge" where
  "on_fileSystemChange st data =
     (let operationKey = ch_event data @ ''-'' @ ch_path data in
      if operationKey \<in> activeOperations st then st
      else (case ch_mode data of
              None \<Rightarrow> handleServerChange st data
            | Some mode \<Rightarrow>
                if ch_event data = ''chmod'' \<and> mode \<noteq> 0 then applyChmod st (ch_path data) mode
                else handleServerChange st data))"

text \<open>The handler of \<^verbatim>\<open>fileContent\<close>. A content that is not a string makes
  \<^verbatim>\<open>Buffer.from\<close> throw, after the directory has been ensured.\<close>

definition on_fileContent :: "edge \<Rightarrow> fileContentMsg \<Rightarrow> edge" where
  "on_fileContent st data =
     (let fullPath = posix_join (localDir st) (fc_path data);
          operationKey = ''write-'' @ fc_path data;
          st0 = st\<lparr>activeOperations := insert operationKey (activeOperations st)\<rparr>;
          st1 = (case ensureDir (efs st0) (posix_dirname fullPath) of
                   Inl e \<Rightarrow> st0
                 | Inr fs1 \<Rightarrow>
                    (case fc_content data of
                       None \<Rightarrow> st0\<lparr>efs := fs1\<rparr>
                     | Some c \<Rightarrow>
                        (case writeFile fs1 fullPath
                                (bufferFrom c (case fc_encoding data of None \<Rightarrow> ''base64'' | Some enc \<Rightarrow> enc)) of
                           Inl e \<Rightarrow> st0\<lparr>efs := fs1\<rparr>
                         | Inr fs2 \<Rightarrow> st0\<lparr>efs := fs2\<rparr>)))
      in st1\<lparr>activeOperations := activeOperations st1 - {operationKey}\<rparr>)"

text \<open>\<^verbatim>\<open>new Set(list)\<close>: the elements in the order of their first occurrence.\<close>

fun setFromList :: "'a list \<Rightarrow> 'a list" where
  "setFromList [] = []"
| "setFromList (x # xs) = x # filter (\<lambda>y. y \<noteq> x) (setFromList xs)"

text \<open>
  \<^verbatim>\<open>syncWithServer\<close> has no \<^verbatim>\<open>try\<close>: an error of a filesystem call leaves the function
  at once. Its result is the state reached and the error thrown, if any.
\<close>

fun syncDeleteLoop :: "edge \<Rightarrow> string list \<Rightarrow> string list \<Rightarrow> edge \<times> errno option" where
  "syncDeleteLoop st serverFilePaths [] = (st, None)"
| "syncDeleteLoop st serverFilePaths (localPath # rest) =
     (if localPath \<notin> set serverFilePaths then
        (case remove (efs st) (posix_join (localDir st) localPath) of
           Inl e \<Rightarrow>
             (st\<lparr>activeOperations := insert (''delete-'' @ localPath) (activeOperations st)\<rparr>,
              Some e)
         | Inr fs' \<Rightarrow>
             syncDeleteLoop
               (st\<lparr>efs := fs',
                   activeOperations :=
                     insert (''delete-'' @ localPath) (activeOperations st)
                       - {''delete-'' @ localPath}\<rparr>)
               serverFilePaths rest)
      else syncDeleteLoop st serverFilePaths rest)"

fun syncCreateLoop :: "edge \<Rightarrow> fsEntry list \<Rightarrow> edge \<times> errno option" where
  "syncCreateLoop st [] = (st, None)"
| "syncCreateLoop st (file # rest) =
     (let fullPath = posix_join (localDir st) (e_path file);
          operationKey =
            (if e_type file = ''directory'' then ''mkdir'' else ''write'') @ ''-'' @ e_path file;
          st1 = st\<lparr>activeOperations := insert operationKey (activeOperations st)\<rparr>
      in if e_type file = ''directory'' then
           (case ensureDir (efs st1) fullPath of
              Inl e \<Rightarrow> (st1, Some e)
            | Inr fs' \<Rightarrow>
                syncCreateLoop
                  (st1\<lparr>efs := fs', activeOperations := activeOperations st1 - {operationKey}\<rparr>)
                  rest)
         else syncCreateLoop (emit (RequestFileContent (e_path file)) st1) rest)"

definition cacheFileModes :: "edge \<Rightarrow> edge" where
  "cacheFileModes st =
     foldl (\<lambda>s file.
              case fs_stat (efs s) (posix_join (localDir s) (e_path file)) of
                Inl e \<Rightarrow> s
              | Inr n \<Rightarrow> s\<lparr>fileModes := (fileModes s)(e_path file \<mapsto> statMode n mod 512)\<rparr>)
           st (getLocalFiles (efs st) (localDir st))"

definition syncWithServer :: "edge \<Rightarrow> fsEntry list \<Rightarrow> edge \<times> errno option" where
  "syncWithServer st files =
     (let localFilePaths = setFromList (map e_path (getLocalFiles (efs st) (localDir st)));
          serverFilePaths = map e_path files
      in case syncDeleteLoop st serverFilePaths localFilePaths of
           (st1, Some e) \<Rightarrow> (st1, Some e)
         | (st1, None) \<Rightarrow>
            (case syncCreateLoop st1 files of
               (st2, Some e) \<Rightarrow> (st2, Some e)
             | (st2, None) \<Rightarrow> (cacheFileModes st2, None)))"

definition setupWatcher :: "edge \<Rightarrow> edge" where
  "setupWatcher st = st\<lparr>watching := True\<rparr>"

text \<open>The handler of \<^verbatim>\<open>fileSystemState\<close>: when \<^verbatim>\<open>syncWithServer\<close> throws, the flag stays
  set and the watcher is not started.\<close>

definition on_fileSystemState :: "edge \<Rightarrow> fsEntry list \<Rightarrow> edge \<times> errno option" where
  "on_fileSystemState st files =
     (case syncWithServer (st\<lparr>isInitialSync := True\<rparr>) files of
        (st1, Some e) \<Rightarrow> (st1, Some e)
      | (st1, None) \<Rightarrow> (setupWatcher (st1\<lparr>isInitialSync := False\<rparr>), None))"

text \<open>One round of the interval of \<^verbatim>\<open>startModePolling\<close>.\<close>

definition modePollRound :: "edge \<Rightarrow> edge" where
  "modePollRound st =
     foldl (\<lambda>s file.
              case fs_stat (efs s) (posix_join (localDir s) (e_path file)) of
                Inl e \<Rightarrow> s
              | Inr n \<Rightarrow>
                 (if fileModes s (e_path file) \<noteq> Some (statMode n mod 512) then
                    emit (FileOperation (chmodOp (e_path file) (statMode n mod 512)))
                      (s\<lparr>fileModes := (fileModes s)(e_path file \<mapsto> statMode n mod 512)\<rparr>)
                  else s))
           st (getLocalFiles (efs st) (localDir st))"

section \<open>The change source\<close>

text \<open>
  Both watchers are created with \<^verbatim>\<open>ignored: /(^|[\/\\])\../\<close>. The expression matches a
  path that has, at its start or right after a slash or a backslash, a dot followed by
  one more character that is not a line terminator. The line terminators of a regular
  expression are the line feed, the carriage return, U+2028 and U+2029; the last two are
  the bytes E2 80 A8 and E2 80 A9. A path the expression matches is not watched, so no
  event is delivered for it.
\<close>

definition lineTerminatorAt :: "string \<Rightarrow> bool" where
  "lineTerminatorAt s =
     (startsWith s [CHR 0x0A] \<or> startsWith s [CHR 0x0D]
      \<or> startsWith s [CHR 0xE2, CHR 0x80, CHR 0xA8]
      \<or> startsWith s [CHR 0xE2, CHR 0x80, CHR 0xA9])"

definition dotThenChar :: "string \<Rightarrow> bool" where
  "dotThenChar s =
     (case s of
        c # rest \<Rightarrow> c = CHR ''.'' \<and> rest \<noteq> [] \<and> \<not> lineTerminatorAt rest
      | [] \<Rightarrow> False)"

fun afterSeparator :: "string \<Rightarrow> bool" where
  "afterSeparator [] = False"
| "afterSeparator (c # cs) =
     (((c = CHR ''/'' \<or> c = CHR 0x5C) \<and> dotThenChar cs) \<or> afterSeparator cs)"

definition ignored :: "string \<Rightarrow> bool" where
  "ignored p = (dotThenChar p \<or> afterSeparator p)"

text \<open>An event of the local watcher, as chokidar hands it to the edge.\<close>

definition edgeWatcherEvent :: "edge \<Rightarrow> string \<Rightarrow> string \<Rightarrow> edge" where
  "edgeWatcherEvent st event filePath =
     (if watching st \<and> \<not> ignored filePath then handleLocalChange st event filePath else st)"

section \<open>The hub agent (\<^verbatim>\<open>FileSystemServer\<close>)\<close>

text \<open>\<^verbatim>\<open>fs.move(src, dest)\<close> without overwriting: the source must exist, the two must differ,
  a directory cannot move below itself, the parent of the destination is created, and an
  existing destination is an error. The filesystem reached is returned with the error.\<close>

fun putAt :: "node \<Rightarrow> string list \<Rightarrow> node \<Rightarrow> errno + node" where
  "putAt t [] n = Inl EBUSY"
| "putAt (File c m) (s # ss) n = Inl ENOTDIR"
| "putAt (Dir m es) [s] n = Inr (Dir m (AList.update s n es))"
| "putAt (Dir m es) (s # ss) n =
     (case map_of es s of
        None \<Rightarrow> Inl ENOENT
      | Some ch \<Rightarrow>
          (case putAt ch ss n of Inl e \<Rightarrow> Inl e
           | Inr ch' \<Rightarrow> Inr (Dir m (AList.update s ch' es))))"

definition move :: "node \<Rightarrow> string \<Rightarrow> string \<Rightarrow> node \<times> errno option" where
  "move fs src dest =
     (case fs_stat fs src of
        Inl e \<Rightarrow> (fs, Some e)
      | Inr n \<Rightarrow>
         (if pathSegs src = pathSegs dest then (fs, Some EINVAL)
          else if isDirectory n \<and> take (length (pathSegs src)) (pathSegs dest) = pathSegs src
            then (fs, Some EINVAL)
          else (case ensureDir fs (posix_dirname dest) of
                  Inl e \<Rightarrow> (fs, Some e)
                | Inr fs1 \<Rightarrow>
                   (if pathExists fs1 dest then (fs1, Some EEXIST)
                    else if isFile n \<and> trailingSeparator dest then (fs1, Some ENOTDIR)
                    else (case removeAt fs1 (pathSegs src) of
                            Inl e \<Rightarrow> (fs1, Some e)
                          | Inr fs2 \<Rightarrow>
                             (case putAt fs2 (pathSegs dest) n of
                                Inl e \<Rightarrow> (fs1, Some e)
                              | Inr fs3 \<Rightarrow> (fs3, None)))))))"

text \<open>What \<^verbatim>\<open>handleClientOperation\<close> can throw; of the message of a filesystem error only
  the error code is kept.\<close>

datatype exn = FsError errno | UnknownClientOperation string | TypeError

fun exnMessage :: "exn \<Rightarrow> string" where
  "exnMessage (FsError ENOENT) = ''ENOENT''"
| "exnMessage (FsError ENOTDIR) = ''ENOTDIR''"
| "exnMessage (FsError EISDIR) = ''EISDIR''"
| "exnMessage (FsError EEXIST) = ''EEXIST''"
| "exnMessage (FsError EBUSY) = ''EBUSY''"
| "exnMessage (FsError EINVAL) = ''EINVAL''"
| "exnMessage (FsError EACCES) = ''EACCES''"
| "exnMessage (UnknownClientOperation operation) = ''Unknown client operation: '' @ operation"
| "exnMessage TypeError = ''TypeError''"

text \<open>A message goes to one socket (\<^verbatim>\<open>socket.emit\<close>) or to every connected socket
  (\<^verbatim>\<open>this.io.emit\<close>).\<close>

datatype dest = ToSocket string | ToAll

datatype hubOut =
    FileSystemStateMsg "fsEntry list"
  | FileContent fileContentMsg
  | OperationError operationErrorMsg
  | FileSystemChange fsChange

record hub =
  watchDir :: string
  hfs :: node
  clients :: "string set"
  sent :: "(dest \<times> hubOut) list"

definition send :: "dest \<Rightarrow> hubOut \<Rightarrow> hub \<Rightarrow> hub" where
  "send d m h = h\<lparr>sent := sent h @ [(d, m)]\<rparr>"

text \<open>The sockets a sent message reaches.\<close>

definition receivers :: "hub \<Rightarrow> dest \<Rightarrow> string set" where
  "receivers h d = (case d of ToSocket sid \<Rightarrow> {sid} | ToAll \<Rightarrow> clients h)"

definition baseChange :: "string \<Rightarrow> string \<Rightarrow> fsChange" where
  "baseChange event p =
     \<lparr>ch_event = event, ch_path = p, ch_type = None, ch_content = None, ch_encoding = None,
      ch_mode = None\<rparr>"

definition handleClientOperation :: "hub \<Rightarrow> fileOp \<Rightarrow> hub \<times> exn option" where
  "handleClientOperation h data =
     (let fullPath = posix_join (watchDir h) (op_path data) in
      if op_operation data = ''write'' then
        (case ensureDir (hfs h) (posix_dirname fullPath) of
           Inl e \<Rightarrow> (h, Some (FsError e))
         | Inr fs1 \<Rightarrow>
            (case op_content data of
               None \<Rightarrow> (h\<lparr>hfs := fs1\<rparr>, Some TypeError)
             | Some c \<Rightarrow>
                (case writeFile fs1 fullPath (bufferFrom c ''base64'') of
                   Inl e \<Rightarrow> (h\<lparr>hfs := fs1\<rparr>, Some (FsError e))
                 | Inr fs2 \<Rightarrow> (h\<lparr>hfs := fs2\<rparr>, None))))
      else if op_operation data = ''delete'' then
        (case remove (hfs h) fullPath of
           Inl e \<Rightarrow> (h, Some (FsError e))
         | Inr fs' \<Rightarrow> (h\<lparr>hfs := fs'\<rparr>, None))
      else if op_operation data = ''mkdir'' then
        (case ensureDir (hfs h) fullPath of
           Inl e \<Rightarrow> (h, Some (FsError e))
         | Inr fs' \<Rightarrow> (h\<lparr>hfs := fs'\<rparr>, None))
      else if op_operation data = ''rename'' then
        (case op_newPath data of
           None \<Rightarrow> (h, Some TypeError)
         | Some newPath \<Rightarrow>
            (case move (hfs h) fullPath (posix_join (watchDir h) newPath) of
               (fs', Some e) \<Rightarrow> (h\<lparr>hfs := fs'\<rparr>, Some (FsError e))
             | (fs', None) \<Rightarrow> (h\<lparr>hfs := fs'\<rparr>, None)))
      else if op_operation data = ''chmod'' then
        (case op_mode data of
           None \<Rightarrow> (h, Some TypeError)
         | Some mode \<Rightarrow>
            (case chmod (hfs h) fullPath mode of
               Inl e \<Rightarrow> (h, Some (FsError e))
             | Inr fs' \<Rightarrow>
                (send ToAll
                   (FileSystemChange ((baseChange ''chmod'' (op_path data))\<lparr>ch_mode := Some mode\<rparr>))
                   (h\<lparr>hfs := fs'\<rparr>), None)))
      else (h, Some (UnknownClientOperation (op_operation data))))"

text \<open>The handler of \<^verbatim>\<open>fileOperation\<close> on the socket \<open>sid\<close>.\<close>

definition on_fileOperation :: "hub \<Rightarrow> string \<Rightarrow> fileOp \<Rightarrow> hub" where
  "on_fileOperation h sid data =
     (case handleClientOperation h data of
        (h', None) \<Rightarrow> h'
      | (h', Some err) \<Rightarrow>
          send (ToSocket sid)
            (OperationError
               \<lparr>oe_message = exnMessage err, oe_operation = op_operation data,
                oe_path = Some (op_path data)\<rparr>) h')"

text \<open>The handler of \<^verbatim>\<open>requestFileContent\<close> on the socket \<open>sid\<close>.\<close>

definition on_requestFileContent :: "hub \<Rightarrow> string \<Rightarrow> string \<Rightarrow> hub" where
  "on_requestFileContent h sid filePath =
     (let fullPath = posix_join (watchDir h) filePath;
          readError =
            OperationError
              \<lparr>oe_message = ''Error reading file '' @ filePath,
               oe_operation = ''requestFileContent'', oe_path = Some filePath\<rparr>;
          notFound =
            OperationError
              \<lparr>oe_message = ''File not found on server: '' @ filePath,
               oe_operation = ''requestFileContent'', oe_path = Some filePath\<rparr>
      in if pathExists (hfs h) fullPath then
           (case fs_stat (hfs h) fullPath of
              Inl e \<Rightarrow> send (ToSocket sid) readError h
            | Inr n \<Rightarrow>
               (if isFile n then
                  (case readFile (hfs h) fullPath of
                     Inl e \<Rightarrow> send (ToSocket sid) readError h
                   | Inr c \<Rightarrow>
                      send (ToSocket sid)
                        (FileContent
                           \<lparr>fc_path = filePath, fc_content = Some (toBase64 c),
                            fc_encoding = Some ''base64''\<rparr>) h)
                else send (ToSocket sid) notFound h))
         else send (ToSocket sid) notFound h)"

text \<open>\<^verbatim>\<open>handleFileChange\<close>, the hub's reaction to an event of its own watcher.\<close>

definition handleFileChange :: "hub \<Rightarrow> string \<Rightarrow> string \<Rightarrow> hub" where
  "handleFileChange h event watchedPath =
     (let relativePath = posix_relative (watchDir h) watchedPath;
          eventData = baseChange event relativePath;
          fullPath = posix_join (watchDir h) relativePath;
          fallback =
            (baseChange event relativePath)
              \<lparr>ch_type := Some (if includesStr event ''Dir'' then ''directory'' else ''file'')\<rparr>
      in if event = ''add'' \<or> event = ''change'' then
           (if pathExists (hfs h) fullPath then
              (case fs_stat (hfs h) fullPath of
                 Inl e \<Rightarrow> send ToAll (FileSystemChange fallback) h
               | Inr n \<Rightarrow>
                  (if isFile n then
                     (case readFile (hfs h) fullPath of
                        Inl e \<Rightarrow> send ToAll (FileSystemChange fallback) h
                      | Inr c \<Rightarrow>
                         send ToAll
                           (FileSystemChange
                              (eventData\<lparr>ch_content := Some (toBase64 c),
                                         ch_encoding := Some ''base64'',
                                         ch_type := Some ''file''\<rparr>)) h)
                   else send ToAll (FileSystemChange (eventData\<lparr>ch_type := Some ''file''\<rparr>)) h))
            else send ToAll (FileSystemChange (eventData\<lparr>ch_type := Some ''file''\<rparr>)) h)
         else if event = ''addDir'' then
           send ToAll (FileSystemChange (eventData\<lparr>ch_type := Some ''directory''\<rparr>)) h
         else if event = ''unlink'' then
           send ToAll (FileSystemChange (eventData\<lparr>ch_type := Some ''file''\<rparr>)) h
         else if event = ''unlinkDir'' then
           send ToAll (FileSystemChange (eventData\<lparr>ch_type := Some ''directory''\<rparr>)) h
         else send ToAll (FileSystemChange eventData) h)"

text \<open>An event of the hub's watcher, as chokidar hands it over.\<close>

definition hubWatcherEvent :: "hub \<Rightarrow> string \<Rightarrow> string \<Rightarrow> hub" where
  "hubWatcherEvent h event watchedPath =
     (if ignored watchedPath then h else handleFileChange h event watchedPath)"

definition sendFileSystemState :: "hub \<Rightarrow> string \<Rightarrow> hub" where
  "sendFileSystemState h sid =
     send (ToSocket sid) (FileSystemStateMsg (getFileSystemState (hfs h) (watchDir h))) h"

definition on_connection :: "hub \<Rightarrow> string \<Rightarrow> hub" where
  "on_connection h sid = sendFileSystemState (h\<lparr>clients := insert sid (clients h)\<rparr>) sid"

definition on_disconnect :: "hub \<Rightarrow> string \<Rightarrow> hub" where
  "on_disconnect h sid = h\<lparr>clients := clients h - {sid}\<rparr>"

section \<open>Predicates of the statements and proofs\<close>

text \<open>A segment that names an entry: not empty, not \<^verbatim>\<open>.\<close> and not \<^verbatim>\<open>..\<close>.\<close>

definition plainSeg :: "string \<Rightarrow> bool" where
  "plainSeg s = (s \<noteq> [] \<and> s \<noteq> ''.'' \<and> s \<noteq> ''..'')"

definition goodSegs :: "string list \<Rightarrow> bool" where
  "goodSegs bs = (\<forall>s \<in> set bs. plainSeg s \<and> CHR ''/'' \<notin> set s)"

text \<open>
  What \<^verbatim>\<open>readdir\<close> can report: in every directory the names are not empty, contain no
  slash and do not repeat.
\<close>

fun wfNode :: "node \<Rightarrow> bool" and wfEntries :: "(string \<times> node) list \<Rightarrow> bool" where
  "wfNode (File c m) = True"
| "wfNode (Dir m es) = wfEntries es"
| "wfEntries [] = True"
| "wfEntries ((name, ch) # rest) =
     (name \<noteq> [] \<and> CHR ''/'' \<notin> set name \<and> name \<notin> fst ` set rest \<and> wfNode ch \<and> wfEntries rest)"

text \<open>The walk once more, with each path as its list of segments; it is shown to agree
  with the two walks above and carries the reasoning about the order of a snapshot.\<close>

fun walkSegs :: "string list \<Rightarrow> (string \<times> node) list \<Rightarrow> (string list \<times> string) list" where
  "walkSegs bs [] = []"
| "walkSegs bs ((name, n) # rest) =
     (if startsWith name ''.'' then walkSegs bs rest
      else (case n of
          Dir m es \<Rightarrow> (bs @ [name], ''directory'') # walkSegs (bs @ [name]) es @ walkSegs bs rest
        | File c m \<Rightarrow> (bs @ [name], ''file'') # walkSegs bs rest))"

text \<open>Every directory strictly between \<open>bs\<close> and an entry is listed before that entry.\<close>

definition parentsFirst :: "string list \<Rightarrow> (string list \<times> string) list \<Rightarrow> bool" where
  "parentsFirst bs xs =
     (\<forall>j<length xs. \<forall>a. strict_prefix bs a \<and> strict_prefix a (fst (xs ! j))
        \<longrightarrow> (\<exists>i<j. xs ! i = (a, ''directory'')))"

section \<open>Replicas and messages to run the handlers on\<close>

text \<open>An edge rooted at \<^verbatim>\<open>/home/local\<close> in steady state, the same edge as it joins (flag
  set, watcher not running), and a hub rooted at \<^verbatim>\<open>/srv/shared\<close> with two connected
  sockets.\<close>

definition edgeDisk :: node where
  "edgeDisk =
     Dir 493 [(''home'', Dir 493 [(''local'', Dir 493
       [(''a.txt'', File ''aGVsbG8='' 420),
        (''docs'', Dir 493 [(''b.txt'', File ''eA=='' 420)]),
        (''stale.txt'', File ''b2xk'' 420)])])]"

definition steadyEdge :: edge where
  "steadyEdge =
     \<lparr>localDir = ''/home/local'', efs = edgeDisk, isInitialSync = False,
      activeOperations = {}, fileModes = [''a.txt'' \<mapsto> 420, ''stale.txt'' \<mapsto> 420],
      emitted = [], timers = [], clock = 0, watching = True\<rparr>"

definition joiningEdge :: edge where
  "joiningEdge =
     \<lparr>localDir = ''/home/local'', efs = edgeDisk, isInitialSync = True,
      activeOperations = {}, fileModes = Map.empty,
      emitted = [], timers = [], clock = 0, watching = False\<rparr>"

definition hubDisk :: node where
  "hubDisk =
     Dir 493 [(''srv'', Dir 493
       [(''secret.key'', File ''c2VjcmV0'' 384),
        (''shared'', Dir 493
          [(''a.txt'', File ''aGVsbG8='' 420),
           (''docs'', Dir 493 [(''b.txt'', File ''eA=='' 420)])])])]"

definition twoClientHub :: hub where
  "twoClientHub =
     \<lparr>watchDir = ''/srv/shared'', hfs = hubDisk, clients = {''s1'', ''s2''}, sent = []\<rparr>"

text \<open>Messages of the hub: a new file, its content reply, a changed file, a deleted
  file, an \<^verbatim>\<open>add\<close> that lost its content, and the snapshot of the hub's tree.\<close>

definition addNote :: fsChange where
  "addNote =
     \<lparr>ch_event = ''add'', ch_path = ''n.txt'', ch_type = Some ''file'',
      ch_content = Some ''aGk='', ch_encoding = Some ''base64'', ch_mode = None\<rparr>"

definition noteContent :: fileContentMsg where
  "noteContent =
     \<lparr>fc_path = ''n.txt'', fc_content = Some ''aGk='', fc_encoding = Some ''base64''\<rparr>"

definition changeA :: fsChange where
  "changeA =
     \<lparr>ch_event = ''change'', ch_path = ''a.txt'', ch_type = Some ''file'',
      ch_content = Some ''Yg=='', ch_encoding = Some ''base64'', ch_mode = None\<rparr>"

definition unlinkA :: fsChange where
  "unlinkA =
     \<lparr>ch_event = ''unlink'', ch_path = ''a.txt'', ch_type = Some ''file'',
      ch_content = None, ch_encoding = None, ch_mode = None\<rparr>"

definition addWithoutContent :: fsChange where
  "addWithoutContent =
     \<lparr>ch_event = ''add'', ch_path = ''gone.txt'', ch_type = Some ''file'',
      ch_content = None, ch_encoding = None, ch_mode = None\<rparr>"

definition hubState :: "fsEntry list" where
  "hubState =
     [\<lparr>e_path = ''a.txt'', e_type = ''file'', e_size = Some 5\<rparr>,
      \<lparr>e_path = ''docs'', e_type = ''directory'', e_size = None\<rparr>,
      \<lparr>e_path = ''docs/b.txt'', e_type = ''file'', e_size = Some 1\<rparr>]"

text \<open>A \<^verbatim>\<open>write\<close> operation and a broadcast whose paths leave the root.\<close>

definition writeEvil :: fileOp where
  "writeEvil = writeOp ''../evil.txt'' ''eA==''"

definition addEvil :: fsChange where
  "addEvil =
     \<lparr>ch_event = ''add'', ch_path = ''../../etc/evil.txt'', ch_type = Some ''file'',
      ch_content = Some ''eA=='', ch_encoding = Some ''base64'', ch_mode = None\<rparr>"

text \<open>Two absolute paths whose last segment is a dot, a line feed and \<^verbatim>\<open>x\<close>, one whose
  last segment is a dot, U+2028 and \<^verbatim>\<open>x\<close>, and a hub disk that holds the first.\<close>

definition hiddenOnHub :: string where
  "hiddenOnHub = ''/srv/shared/.'' @ [CHR 0x0A] @ ''x''"

definition hiddenOnEdge :: string where
  "hiddenOnEdge = ''/home/local/.'' @ [CHR 0x0A] @ ''x''"

definition hiddenSeparatorOnHub :: string where
  "hiddenSeparatorOnHub = ''/srv/shared/.'' @ [CHR 0xE2, CHR 0x80, CHR 0xA8] @ ''x''"

definition hiddenDisk :: node where
  "hiddenDisk =
     Dir 493 [(''srv'', Dir 493 [(''shared'', Dir 493
       [([CHR ''.'', CHR 0x0A, CHR ''x''], File ''eA=='' 420),
        (''.git'', Dir 493 [(''config'', File ''eA=='' 420)]),
        (''a.txt'', File ''aGVsbG8='' 420)])])]"

text \<open>A hub whose root holds a file that its owner may not read and a directory that its
  owner may not search.\<close>

definition lockedDisk :: node where
  "lockedDisk =
     Dir 493 [(''srv'', Dir 493 [(''shared'', Dir 493
       [(''a.txt'', File ''aGVsbG8='' 420),
        (''locked.txt'', File ''eA=='' 0),
        (''closed'', Dir 0 [(''b.txt'', File ''eA=='' 420)])])])]"

definition lockedHub :: hub where
  "lockedHub =
     \<lparr>watchDir = ''/srv/shared'', hfs = lockedDisk, clients = {''s1'', ''s2''}, sent = []\<rparr>"

text \<open>A disk on which \<^verbatim>\<open>docs\<close> is a regular file, and a snapshot in which it is a
  directory.\<close>

definition clashDisk :: node where
  "clashDisk = Dir 493 [(''home'', Dir 493 [(''local'', Dir 493 [(''docs'', File ''eA=='' 420)])])]"

definition clashState :: "fsEntry list" where
  "clashState =
     [\<lparr>e_path = ''docs'', e_type = ''directory'', e_size = None\<rparr>,
      \<lparr>e_path = ''a.txt'', e_type = ''file'', e_size = Some 5\<rparr>]"

section \<open>Unfolding the model on concrete inputs\<close>

lemmas path_defs =
  posix_join_def posix_normalize_def normalizeString_def normStep_def isAbsolute_def
  trailingSeparator_def pathSegs_def posix_dirname_def posix_relative_def

lemmas fs_defs =
  fs_stat_def pathExists_def readFile_def writeFile_def ensureDir_def remove_def chmod_def
  slashAfterFile_def ownerCanRead_def ownerCanSearch_def
  isFile_def isDirectory_def statMode_def readdir_def defaultFileMode_def defaultDirMode_def
  byteLength_def

lemmas edge_defs =
  on_fileSystemChange_def handleServerChange_def serverChangeTry_def on_fileContent_def
  handleLocalChange_def localChangeTry_def setTimeoutDelete_def emit_def applyChmod_def
  edgeWatcherEvent_def ignored_def dotThenChar_def lineTerminatorAt_def bufferFrom_def
  toBase64_def baseOp_def chmodOp_def writeOp_def syncWithServer_def
  on_fileSystemState_def cacheFileModes_def setupWatcher_def getLocalFiles_def

lemmas hub_defs =
  on_requestFileContent_def on_fileOperation_def handleClientOperation_def send_def
  receivers_def baseChange_def hubWatcherEvent_def handleFileChange_def
  getFileSystemState_def bufferFrom_def toBase64_def writeOp_def baseOp_def

lemmas example_defs =
  steadyEdge_def edgeDisk_def hubDisk_def twoClientHub_def addNote_def noteContent_def
  changeA_def unlinkA_def addWithoutContent_def hubState_def writeEvil_def addEvil_def
  hiddenOnHub_def hiddenOnEdge_def hiddenSeparatorOnHub_def hiddenDisk_def lockedDisk_def
  lockedHub_def joiningEdge_def clashDisk_def clashState_def

section \<open>Facts about paths\<close>

lemma splitSlash_nonempty: "splitSlash s \<noteq> []"
  by (induction s) (auto split: list.splits)

lemma splitSlash_append:
  "splitSlash (a @ CHR ''/'' # b) = splitSlash a @ splitSlash b"
proof (induction a)
  case Nil
  then show ?case by simp
next
  case (Cons c a)
  then show ?case
    using splitSlash_nonempty [of a] by (auto split: list.splits)
qed

lemma splitSlash_no_slash: "seg \<in> set (splitSlash s) \<Longrightarrow> CHR ''/'' \<notin> set seg"
  by (induction s arbitrary: seg) (auto split: if_splits list.splits)

lemma splitSlash_plain: "CHR ''/'' \<notin> set s \<Longrightarrow> splitSlash s = [s]"
  by (induction s) (auto split: list.splits)

lemma splitSlash_joinSlash:
  "segs \<noteq> [] \<Longrightarrow> \<forall>s \<in> set segs. CHR ''/'' \<notin> set s \<Longrightarrow> splitSlash (joinSlash segs) = segs"
proof (induction segs rule: joinSlash.induct)
  case 1
  then show ?case by simp
next
  case (2 s)
  then show ?case by (simp add: splitSlash_plain)
next
  case (3 s t ss)
  then show ?case using splitSlash_append [of s "joinSlash (t # ss)"]
    by (simp add: splitSlash_plain)
qed

lemma foldl_normStep_plain:
  "\<forall>s \<in> set xs. plainSeg s \<Longrightarrow> foldl (normStep b) acc xs = acc @ xs"
  by (induction xs arbitrary: acc) (auto simp: normStep_def plainSeg_def)

lemma foldl_normStep_False_plain:
  "\<forall>s \<in> set acc. plainSeg s \<Longrightarrow> \<forall>s \<in> set (foldl (normStep False) acc xs). plainSeg s"
proof (induction xs arbitrary: acc)
  case Nil
  then show ?case by simp
next
  case (Cons x xs)
  have "\<forall>s \<in> set (normStep False acc x). plainSeg s"
    using Cons.prems by (auto simp: normStep_def plainSeg_def dest: in_set_butlastD)
  then show ?case using Cons.IH by simp
qed

lemma pathSegs_plain: "s \<in> set (pathSegs p) \<Longrightarrow> plainSeg s"
  using foldl_normStep_False_plain [of "[]" "splitSlash p"]
  by (simp add: pathSegs_def normalizeString_def)

lemma set_normStep: "set (normStep b acc x) \<subseteq> insert x (insert ''..'' (set acc))"
proof -
  have "set (butlast acc) \<subseteq> set acc"
    by (auto dest: in_set_butlastD)
  then show ?thesis
    unfolding normStep_def by (simp add: subset_insertI2)
qed

lemma foldl_normStep_no_slash:
  "\<forall>s \<in> set acc. CHR ''/'' \<notin> set s \<Longrightarrow> \<forall>s \<in> set xs. CHR ''/'' \<notin> set s
   \<Longrightarrow> \<forall>s \<in> set (foldl (normStep b) acc xs). CHR ''/'' \<notin> set s"
proof (induction xs arbitrary: acc)
  case Nil
  then show ?case by simp
next
  case (Cons x xs)
  have dd: "CHR ''/'' \<notin> set ''..''" by simp
  have "\<forall>s \<in> set (normStep b acc x). CHR ''/'' \<notin> set s"
  proof
    fix s assume "s \<in> set (normStep b acc x)"
    then have "s = x \<or> s = ''..'' \<or> s \<in> set acc"
      using set_normStep [of b acc x] by blast
    then show "CHR ''/'' \<notin> set s"
    proof (elim disjE)
      assume "s = x" then show ?thesis using Cons.prems(2) by simp
    next
      assume "s = ''..''" then show ?thesis using dd by simp
    next
      assume "s \<in> set acc" then show ?thesis using Cons.prems(1) by blast
    qed
  qed
  moreover have "\<forall>s \<in> set xs. CHR ''/'' \<notin> set s"
    using Cons.prems(2) by simp
  ultimately show ?case using Cons.IH [of "normStep b acc x"] by simp
qed

lemma pathSegs_no_slash: "s \<in> set (pathSegs p) \<Longrightarrow> CHR ''/'' \<notin> set s"
  using foldl_normStep_no_slash [of "[]" "splitSlash p" False] splitSlash_no_slash
  by (auto simp: pathSegs_def normalizeString_def)

lemma foldl_normStep_skip_empty:
  "foldl (normStep b) acc ([] # xs) = foldl (normStep b) acc xs"
  by (simp add: normStep_def)

lemma normalize_abs_form:
  assumes "isAbsolute p"
  shows "posix_normalize p =
           (if pathSegs p = [] then ''/''
            else CHR ''/'' # joinSlash (pathSegs p) @ (if trailingSeparator p then ''/'' else []))"
  using assms by (auto simp: posix_normalize_def pathSegs_def Let_def isAbsolute_def)

lemma pathSegs_fixed: "foldl (normStep False) [] (pathSegs p) = pathSegs p"
  using foldl_normStep_plain [of "pathSegs p" False "[]"] pathSegs_plain by simp

lemma pathSegs_normalize_abs:
  assumes "isAbsolute p"
  shows "pathSegs (posix_normalize p) = pathSegs p"
proof (cases "pathSegs p = []")
  case True
  then have "posix_normalize p = ''/''"
    using assms by (simp add: normalize_abs_form)
  then show ?thesis using True
    by (simp add: pathSegs_def normalizeString_def normStep_def)
next
  case False
  have nosl: "\<forall>s \<in> set (pathSegs p). CHR ''/'' \<notin> set s"
    using pathSegs_no_slash by blast
  have a: "splitSlash (joinSlash (pathSegs p)) = pathSegs p"
    using splitSlash_joinSlash [OF False nosl] .
  show ?thesis
  proof (cases "trailingSeparator p")
    case True
    have "posix_normalize p = CHR ''/'' # joinSlash (pathSegs p) @ ''/''"
      using assms False True by (simp add: normalize_abs_form)
    moreover have "splitSlash (CHR ''/'' # joinSlash (pathSegs p) @ ''/'') = [] # pathSegs p @ [[]]"
      using splitSlash_append [of "joinSlash (pathSegs p)" "[]"] a by simp
    moreover have "foldl (normStep False) [] ([] # pathSegs p @ [[]]) = pathSegs p"
      using pathSegs_fixed [of p] by (simp add: normStep_def)
    ultimately show ?thesis
      by (simp only: pathSegs_def normalizeString_def)
  next
    case nt: False
    have "posix_normalize p = CHR ''/'' # joinSlash (pathSegs p)"
      using assms False nt by (simp add: normalize_abs_form)
    moreover have "splitSlash (CHR ''/'' # joinSlash (pathSegs p)) = [] # pathSegs p"
      using a by simp
    moreover have "foldl (normStep False) [] ([] # pathSegs p) = pathSegs p"
      using pathSegs_fixed [of p] by (simp add: normStep_def)
    ultimately show ?thesis
      by (simp only: pathSegs_def normalizeString_def)
  qed
qed

lemma pathSegs_join_abs:
  assumes "isAbsolute root"
  shows "pathSegs (posix_join root p) = foldl (normStep False) (pathSegs root) (splitSlash p)"
proof -
  from assms have ne: "root \<noteq> []" by (auto simp: isAbsolute_def)
  show ?thesis
  proof (cases "p = []")
    case True
    then show ?thesis using ne assms
      by (simp add: posix_join_def pathSegs_normalize_abs normStep_def)
  next
    case False
    have abs: "isAbsolute (root @ ''/'' @ p)"
      using assms by (auto simp: isAbsolute_def split: list.splits)
    have "pathSegs (posix_join root p) = pathSegs (root @ ''/'' @ p)"
      using ne False abs by (simp add: posix_join_def pathSegs_normalize_abs)
    also have "\<dots> = foldl (normStep False) [] (splitSlash root @ splitSlash p)"
      using splitSlash_append [of root p] by (simp add: pathSegs_def normalizeString_def)
    finally show ?thesis by (simp add: pathSegs_def normalizeString_def)
  qed
qed

lemma foldl_normStep_keeps_prefix:
  "prefix r acc \<Longrightarrow> ''..'' \<notin> set xs \<Longrightarrow> prefix r (foldl (normStep b) acc xs)"
proof (induction xs arbitrary: acc)
  case Nil
  then show ?case by simp
next
  case (Cons x xs)
  from Cons.prems have nx: "x \<noteq> ''..''" and nxs: "''..'' \<notin> set xs"
    by auto
  have "normStep b acc x = acc \<or> normStep b acc x = acc @ [x]"
    using nx by (simp add: normStep_def)
  then have "prefix r (normStep b acc x)"
    using Cons.prems(1) by (auto intro: prefix_order.trans)
  then show ?case using Cons.IH nxs by simp
qed

lemma join_under_root:
  assumes "isAbsolute root" and "''..'' \<notin> set (splitSlash p)"
  shows "prefix (pathSegs root) (pathSegs (posix_join root p))"
  using assms by (simp add: pathSegs_join_abs foldl_normStep_keeps_prefix)

section \<open>Facts about the snapshot walk\<close>

lemma joinSlash_nonempty: "bs \<noteq> [] \<Longrightarrow> hd bs \<noteq> [] \<Longrightarrow> joinSlash bs \<noteq> []"
  by (induction bs rule: joinSlash.induct) auto

lemma joinSlash_hd: "bs \<noteq> [] \<Longrightarrow> hd bs \<noteq> [] \<Longrightarrow> hd (joinSlash bs) = hd (hd bs)"
  by (induction bs rule: joinSlash.induct) auto

lemma joinSlash_last_aux:
  "bs \<noteq> [] \<Longrightarrow> last bs \<noteq> [] \<Longrightarrow> joinSlash bs \<noteq> [] \<and> last (joinSlash bs) = last (last bs)"
  by (induction bs rule: joinSlash.induct) auto

lemma joinSlash_last: "bs \<noteq> [] \<Longrightarrow> last bs \<noteq> [] \<Longrightarrow> last (joinSlash bs) = last (last bs)"
  by (simp add: joinSlash_last_aux)

lemma joinSlash_snoc: "bs \<noteq> [] \<Longrightarrow> joinSlash (bs @ [n]) = joinSlash bs @ CHR ''/'' # n"
  by (induction bs rule: joinSlash.induct) auto

lemma plain_name:
  "name \<noteq> [] \<Longrightarrow> \<not> startsWith name ''.'' \<Longrightarrow> plainSeg name"
  by (cases name) (auto simp: plainSeg_def)

lemma normalize_rel_good:
  assumes g: "goodSegs bs" and ne: "bs \<noteq> []"
  shows "posix_normalize (joinSlash bs) = joinSlash bs"
proof -
  have hdne: "hd bs \<noteq> []" and lastne: "last bs \<noteq> []"
    using g ne by (auto simp: goodSegs_def plainSeg_def)
  have jne: "joinSlash bs \<noteq> []" using joinSlash_nonempty [OF ne hdne] .
  have "hd (joinSlash bs) \<noteq> CHR ''/''"
    using joinSlash_hd [OF ne hdne] g ne hdne
    by (metis goodSegs_def hd_in_set list.set_sel(1))
  then have nabs: "\<not> isAbsolute (joinSlash bs)"
    using jne by (cases "joinSlash bs") (auto simp: isAbsolute_def)
  have "last (joinSlash bs) \<noteq> CHR ''/''"
    using joinSlash_last [OF ne lastne] g ne lastne
    by (metis goodSegs_def last_in_set)
  then have ntr: "\<not> trailingSeparator (joinSlash bs)"
    by (simp add: trailingSeparator_def)
  have sp: "splitSlash (joinSlash bs) = bs"
    using splitSlash_joinSlash [OF ne] g by (simp add: goodSegs_def)
  have nm: "normalizeString True bs = bs"
    using foldl_normStep_plain [of bs True "[]"] g by (simp add: normalizeString_def goodSegs_def)
  show ?thesis using jne nabs ntr sp nm ne
    by (simp add: posix_normalize_def Let_def)
qed

lemma join_rel:
  assumes g: "goodSegs bs" and n1: "name \<noteq> []" and n2: "CHR ''/'' \<notin> set name"
    and n3: "\<not> startsWith name ''.''"
  shows "posix_join (joinSlash bs) name = joinSlash (bs @ [name])"
proof -
  have gn: "goodSegs (bs @ [name])"
    using g plain_name [OF n1 n3] n2 by (simp add: goodSegs_def)
  have nn: "posix_normalize (joinSlash (bs @ [name])) = joinSlash (bs @ [name])"
    using normalize_rel_good [OF gn] by simp
  show ?thesis
  proof (cases "bs = []")
    case True
    then show ?thesis using nn n1 by (simp add: posix_join_def)
  next
    case False
    have "hd bs \<noteq> []" using g False by (auto simp: goodSegs_def plainSeg_def)
    then have "joinSlash bs \<noteq> []" using joinSlash_nonempty False by blast
    then show ?thesis using nn n1 joinSlash_snoc [OF False, of name]
      by (simp add: posix_join_def)
  qed
qed

lemma same_walk: "getFileSystemStateIn base es = getLocalFilesIn base es"
  by (induction base es rule: getLocalFilesIn.induct) (auto split: node.splits)

lemma splitSlash_good: "goodSegs bs \<Longrightarrow> bs \<noteq> [] \<Longrightarrow> splitSlash (joinSlash bs) = bs"
  using splitSlash_joinSlash [of bs] by (simp add: goodSegs_def)

lemma walk_abs:
  "base = joinSlash bs \<Longrightarrow> goodSegs bs \<Longrightarrow> wfEntries es \<Longrightarrow>
   map (\<lambda>e. (splitSlash (e_path e), e_type e)) (getLocalFilesIn base es) = walkSegs bs es"
proof (induction base es arbitrary: bs rule: getLocalFilesIn.induct)
  case (1 relativeBasePath)
  then show ?case by simp
next
  case (2 relativeBasePath name n rest)
  from "2.prems" have nm: "name \<noteq> []" "CHR ''/'' \<notin> set name" and wn: "wfNode n"
    and wr: "wfEntries rest"
    by auto
  show ?case
  proof (cases "startsWith name ''.''")
    case True
    then show ?thesis using "2.IH"(1) "2.prems" wr by simp
  next
    case False
    have j: "posix_join relativeBasePath name = joinSlash (bs @ [name])"
      using join_rel [OF "2.prems"(2) nm False] "2.prems"(1) by simp
    have g: "goodSegs (bs @ [name])"
      using "2.prems"(2) plain_name [OF nm(1) False] nm(2) by (simp add: goodSegs_def)
    have sp: "splitSlash (joinSlash (bs @ [name])) = bs @ [name]"
      using splitSlash_good [OF g] by simp
    have r: "map (\<lambda>e. (splitSlash (e_path e), e_type e)) (getLocalFilesIn relativeBasePath rest)
               = walkSegs bs rest"
    proof (cases n)
      case (File c m)
      show ?thesis using "2.IH"(2) [OF False File "2.prems"(1,2) wr] .
    next
      case (Dir m es)
      show ?thesis using "2.IH"(4) [OF False Dir "2.prems"(1,2) wr] .
    qed
    show ?thesis
    proof (cases n)
      case (File c m)
      then show ?thesis using False j sp r by simp
    next
      case (Dir m es)
      have we: "wfEntries es" using wn Dir by simp
      have "map (\<lambda>e. (splitSlash (e_path e), e_type e))
              (getLocalFilesIn (posix_join relativeBasePath name) es) = walkSegs (bs @ [name]) es"
        using "2.IH"(3) [OF False Dir j g we] .
      then show ?thesis using False Dir j sp r by simp
    qed
  qed
qed

lemma walkSegs_shape:
  "x \<in> set (walkSegs bs es) \<Longrightarrow>
   \<exists>n ns. fst x = bs @ n # ns \<and> n \<in> fst ` set es \<and> (\<forall>s \<in> set (n # ns). \<not> startsWith s ''.'')"
proof (induction bs es arbitrary: x rule: walkSegs.induct)
  case (1 bs)
  then show ?case by simp
next
  case (2 bs name n rest)
  have widen: "\<exists>k ns. fst x = bs @ k # ns \<and> k \<in> fst ` set ((name, n) # rest)
                 \<and> (\<forall>s \<in> set (k # ns). \<not> startsWith s ''.'')"
    if "\<exists>k ns. fst x = bs @ k # ns \<and> k \<in> fst ` set rest
                 \<and> (\<forall>s \<in> set (k # ns). \<not> startsWith s ''.'')"
    using that by auto
  have here: "\<exists>k ns. fst x = bs @ k # ns \<and> k \<in> fst ` set ((name, n) # rest)
                 \<and> (\<forall>s \<in> set (k # ns). \<not> startsWith s ''.'')"
    if "fst x = bs @ [name]" "\<not> startsWith name ''.''"
    using that by (intro exI [of _ name] exI [of _ "[]"]) simp
  show ?case
  proof (cases "startsWith name ''.''")
    case True
    then have "x \<in> set (walkSegs bs rest)" using "2.prems" by simp
    then show ?thesis using "2.IH"(1) [OF True] widen by blast
  next
    case False
    show ?thesis
    proof (cases n)
      case (File c m)
      from "2.prems" False File have "x = (bs @ [name], ''file'') \<or> x \<in> set (walkSegs bs rest)"
        by simp
      then show ?thesis
      proof
        assume "x = (bs @ [name], ''file'')"
        then show ?thesis using here False by simp
      next
        assume "x \<in> set (walkSegs bs rest)"
        then show ?thesis using "2.IH"(2) [OF False File] widen by blast
      qed
    next
      case (Dir m es)
      from "2.prems" False Dir have
        "x = (bs @ [name], ''directory'') \<or> x \<in> set (walkSegs (bs @ [name]) es)
         \<or> x \<in> set (walkSegs bs rest)"
        by auto
      then show ?thesis
      proof (elim disjE)
        assume "x = (bs @ [name], ''directory'')"
        then show ?thesis using here False by simp
      next
        assume "x \<in> set (walkSegs (bs @ [name]) es)"
        from "2.IH"(3) [OF False Dir this] obtain n' ns where
          f: "fst x = (bs @ [name]) @ n' # ns" and h: "\<forall>s \<in> set (n' # ns). \<not> startsWith s ''.''"
          by blast
        show ?thesis
          using f h False by (intro exI [of _ name] exI [of _ "n' # ns"]) simp
      next
        assume "x \<in> set (walkSegs bs rest)"
        then show ?thesis using "2.IH"(4) [OF False Dir] widen by blast
      qed
    qed
  qed
qed

lemma between_segs:
  assumes "strict_prefix bs a" and "strict_prefix a (bs @ n # ns)"
  shows "a = bs @ [n] \<or> strict_prefix (bs @ [n]) a"
proof -
  from assms(1) obtain a' where a: "a = bs @ a'" and ne: "a' \<noteq> []"
    by (auto simp: strict_prefix_def prefix_def)
  from assms(2) a have "strict_prefix a' (n # ns)"
    by (simp add: strict_prefix_def)
  with ne obtain a'' where "a' = n # a''"
    by (cases a') (auto simp: strict_prefix_def)
  with a show ?thesis by (cases a'') (auto simp: strict_prefix_def)
qed

lemma nothing_between: "strict_prefix bs a \<Longrightarrow> \<not> strict_prefix a (bs @ [n])"
proof
  assume 1: "strict_prefix bs a" and 2: "strict_prefix a (bs @ [n])"
  then have "length bs < length a" "length a < length (bs @ [n])"
    by (auto dest: prefix_length_less)
  then show False by simp
qed

lemma parentsFirst_Nil: "parentsFirst bs []"
  by (simp add: parentsFirst_def)

lemma parentsFirst_append:
  assumes "parentsFirst bs xs" and "parentsFirst bs ys"
  shows "parentsFirst bs (xs @ ys)"
  unfolding parentsFirst_def
proof (intro allI impI)
  fix j a
  assume j: "j < length (xs @ ys)"
    and a: "strict_prefix bs a \<and> strict_prefix a (fst ((xs @ ys) ! j))"
  show "\<exists>i<j. (xs @ ys) ! i = (a, ''directory'')"
  proof (cases "j < length xs")
    case True
    with a have "strict_prefix bs a \<and> strict_prefix a (fst (xs ! j))"
      by (simp add: nth_append)
    with assms(1) True obtain i where "i < j" "xs ! i = (a, ''directory'')"
      unfolding parentsFirst_def by blast
    then show ?thesis using True by (intro exI [of _ i]) (simp add: nth_append)
  next
    case False
    then have j': "j - length xs < length ys" using j by simp
    from a False have "strict_prefix bs a \<and> strict_prefix a (fst (ys ! (j - length xs)))"
      by (simp add: nth_append)
    with assms(2) j' obtain i where i: "i < j - length xs" "ys ! i = (a, ''directory'')"
      unfolding parentsFirst_def by blast
    then show ?thesis using False
      by (intro exI [of _ "length xs + i"]) (simp add: nth_append)
  qed
qed

lemma parentsFirst_leaf:
  assumes "parentsFirst bs xs"
  shows "parentsFirst bs ((bs @ [n], t) # xs)"
  unfolding parentsFirst_def
proof (intro allI impI)
  fix j a
  assume j: "j < length ((bs @ [n], t) # xs)"
    and a: "strict_prefix bs a \<and> strict_prefix a (fst (((bs @ [n], t) # xs) ! j))"
  show "\<exists>i<j. ((bs @ [n], t) # xs) ! i = (a, ''directory'')"
  proof (cases j)
    case 0
    then show ?thesis using a nothing_between [of bs a n] by simp
  next
    case (Suc k)
    with j a have "k < length xs" "strict_prefix bs a \<and> strict_prefix a (fst (xs ! k))"
      by simp_all
    with assms obtain i where "i < k" "xs ! i = (a, ''directory'')"
      unfolding parentsFirst_def by blast
    then show ?thesis using Suc by (intro exI [of _ "Suc i"]) simp
  qed
qed

lemma parentsFirst_dir:
  assumes sub: "parentsFirst (bs @ [n]) xs"
    and shape: "\<forall>x \<in> set xs. \<exists>k ns. fst x = (bs @ [n]) @ k # ns"
  shows "parentsFirst bs ((bs @ [n], ''directory'') # xs)"
  unfolding parentsFirst_def
proof (intro allI impI)
  fix j a
  assume j: "j < length ((bs @ [n], ''directory'') # xs)"
    and a: "strict_prefix bs a \<and> strict_prefix a (fst (((bs @ [n], ''directory'') # xs) ! j))"
  show "\<exists>i<j. ((bs @ [n], ''directory'') # xs) ! i = (a, ''directory'')"
  proof (cases j)
    case 0
    then show ?thesis using a nothing_between [of bs a n] by simp
  next
    case (Suc k)
    with j a have k: "k < length xs" and a1: "strict_prefix bs a"
      and a2: "strict_prefix a (fst (xs ! k))"
      by simp_all
    from shape k obtain k' ns where f: "fst (xs ! k) = bs @ n # k' # ns"
      by (metis append.assoc append_Cons append_Nil nth_mem)
    from between_segs [OF a1] a2 f have "a = bs @ [n] \<or> strict_prefix (bs @ [n]) a"
      by simp
    then show ?thesis
    proof
      assume "a = bs @ [n]"
      then show ?thesis using Suc by (intro exI [of _ 0]) simp
    next
      assume "strict_prefix (bs @ [n]) a"
      with sub k a2 obtain i where "i < k" "xs ! i = (a, ''directory'')"
        unfolding parentsFirst_def by blast
      then show ?thesis using Suc by (intro exI [of _ "Suc i"]) simp
    qed
  qed
qed

lemma walkSegs_parentsFirst: "parentsFirst bs (walkSegs bs es)"
proof (induction bs es rule: walkSegs.induct)
  case (1 bs)
  then show ?case by (simp add: parentsFirst_Nil)
next
  case (2 bs name n rest)
  show ?case
  proof (cases "startsWith name ''.''")
    case True
    then show ?thesis using "2.IH"(1) by simp
  next
    case False
    show ?thesis
    proof (cases n)
      case (File c m)
      then show ?thesis
        using False "2.IH"(2) [OF False File] parentsFirst_leaf by simp
    next
      case (Dir m es)
      have sh: "\<forall>x \<in> set (walkSegs (bs @ [name]) es). \<exists>k ns. fst x = (bs @ [name]) @ k # ns"
        using walkSegs_shape by blast
      have "parentsFirst bs ((bs @ [name], ''directory'') # walkSegs (bs @ [name]) es)"
        using parentsFirst_dir [OF "2.IH"(3) [OF False Dir] sh] .
      then have "parentsFirst bs
                   (((bs @ [name], ''directory'') # walkSegs (bs @ [name]) es) @ walkSegs bs rest)"
        using parentsFirst_append "2.IH"(4) [OF False Dir] by blast
      then show ?thesis using False Dir by simp
    qed
  qed
qed

lemma walkSegs_sorted:
  "wfEntries es \<Longrightarrow>
   sorted_wrt (\<lambda>e d. \<not> (snd d = ''directory'' \<and> strict_prefix (fst d) (fst e))) (walkSegs bs es)"
proof (induction bs es rule: walkSegs.induct)
  case (1 bs)
  then show ?case by simp
next
  case (2 bs name n rest)
  from "2.prems" have fresh: "name \<notin> fst ` set rest" and wn: "wfNode n" and wr: "wfEntries rest"
    by auto
  have other: "\<not> strict_prefix (fst d) (bs @ name # ms)" if "d \<in> set (walkSegs bs rest)" for d ms
  proof -
    from walkSegs_shape [OF that] obtain k ns where f: "fst d = bs @ k # ns" and k: "k \<in> fst ` set rest"
      by blast
    from k fresh have "k \<noteq> name" by blast
    then show ?thesis using f by (auto simp: strict_prefix_def)
  qed
  show ?case
  proof (cases "startsWith name ''.''")
    case True
    then show ?thesis using "2.IH"(1) wr by simp
  next
    case False
    show ?thesis
    proof (cases n)
      case (File c m)
      then show ?thesis
        using False "2.IH"(2) [OF False File wr] other [of _ "[]"] by auto
    next
      case (Dir m es)
      have we: "wfEntries es" using wn Dir by simp
      have below: "\<not> strict_prefix (fst d) (bs @ [name])" if "d \<in> set (walkSegs (bs @ [name]) es)" for d
      proof -
        from walkSegs_shape [OF that] obtain k ns where "fst d = (bs @ [name]) @ k # ns"
          by blast
        then show ?thesis by (auto simp: strict_prefix_def)
      qed
      have cross: "\<not> strict_prefix (fst d) (fst e)"
        if "e \<in> set (walkSegs (bs @ [name]) es)" "d \<in> set (walkSegs bs rest)" for e d
      proof -
        from walkSegs_shape [OF that(1)] obtain k ns where "fst e = bs @ name # k # ns"
          by auto
        then show ?thesis using other [OF that(2)] by simp
      qed
      show ?thesis
        using False Dir "2.IH"(3) [OF False Dir we] "2.IH"(4) [OF False Dir wr]
          below other [of _ "[]"] cross
        by (auto simp: sorted_wrt_append)
    qed
  qed
qed

lemma wf_map_of: "wfEntries es \<Longrightarrow> map_of es s = Some ch \<Longrightarrow> wfNode ch"
  by (induction es) (auto split: if_splits)

lemma wf_resolve: "wfNode n \<Longrightarrow> resolve n p = Inr n' \<Longrightarrow> wfNode n'"
proof (induction n p rule: resolve.induct)
  case (1 n)
  then show ?case by simp
next
  case (2 c m s ss)
  then show ?case by simp
next
  case (3 m es s ss)
  then show ?case by (auto split: option.splits if_splits dest: wf_map_of)
qed

lemma wf_readdir: "wfNode fs \<Longrightarrow> readdir fs root = Inr es \<Longrightarrow> wfEntries es"
  using wf_resolve [of fs "pathSegs root"]
  by (auto simp: readdir_def fs_stat_def split: sum.splits node.splits if_splits)

lemma goodSegs_Nil: "goodSegs []"
  by (simp add: goodSegs_def)

lemma snapshot_abs:
  assumes "wfNode fs" and "readdir fs root = Inr es"
  shows "map (\<lambda>e. (splitSlash (e_path e), e_type e)) (getLocalFilesIn [] es) = walkSegs [] es"
  using walk_abs [of "[]" "[]" es] wf_readdir [OF assms] goodSegs_Nil by simp

lemma snapshots_equal: "getFileSystemState fs root = getLocalFiles fs root"
  by (simp add: getFileSystemState_def getLocalFiles_def same_walk split: sum.splits)

lemma snapshot_cases:
  obtains "getLocalFiles fs root = []"
  | es where "readdir fs root = Inr es" "getLocalFiles fs root = getLocalFilesIn [] es"
  by (cases "readdir fs root") (auto simp: getLocalFiles_def)

lemma getLocalFiles_order:
  assumes wf: "wfNode fs" and xs: "xs = getLocalFiles fs root"
  shows "(\<forall>i j. i < length xs \<and> j < length xs \<and> e_type (xs ! i) = ''directory''
            \<and> strict_prefix (splitSlash (e_path (xs ! i))) (splitSlash (e_path (xs ! j)))
          \<longrightarrow> i < j)
       \<and> (\<forall>j a. j < length xs \<and> a \<noteq> [] \<and> strict_prefix a (splitSlash (e_path (xs ! j)))
          \<longrightarrow> (\<exists>i<j. e_type (xs ! i) = ''directory'' \<and> splitSlash (e_path (xs ! i)) = a))"
proof (cases rule: snapshot_cases [of fs root])
  case 1
  then show ?thesis using xs by simp
next
  case (2 es)
  let ?f = "\<lambda>e. (splitSlash (e_path e), e_type e)"
  have m: "map ?f xs = walkSegs [] es"
    using snapshot_abs [OF wf 2(1)] 2(2) xs by simp
  have len: "length (walkSegs [] es) = length xs"
    using arg_cong [OF m, of length] by simp
  have nth: "walkSegs [] es ! k = ?f (xs ! k)" if "k < length xs" for k
    using nth_map [OF that, of ?f] m by simp
  have we: "wfEntries es" using wf_readdir [OF wf 2(1)] .
  have A: "i < j" if "i < length xs" "j < length xs" "e_type (xs ! i) = ''directory''"
    "strict_prefix (splitSlash (e_path (xs ! i))) (splitSlash (e_path (xs ! j)))" for i j
  proof (rule ccontr)
    assume "\<not> i < j"
    moreover have "i \<noteq> j" using that(4) by auto
    ultimately have ji: "j < i" by simp
    from walkSegs_sorted [OF we, of "[]"] ji that(1) len
    have "\<not> (snd (walkSegs [] es ! i) = ''directory''
              \<and> strict_prefix (fst (walkSegs [] es ! i)) (fst (walkSegs [] es ! j)))"
      by (simp add: sorted_wrt_iff_nth_less)
    then show False using nth [OF that(1)] nth [OF that(2)] that(3,4) by simp
  qed
  have B: "\<exists>i<j. e_type (xs ! i) = ''directory'' \<and> splitSlash (e_path (xs ! i)) = a"
    if "j < length xs" "a \<noteq> []" "strict_prefix a (splitSlash (e_path (xs ! j)))" for j a
  proof -
    have "strict_prefix [] a" using that(2) by (simp add: strict_prefix_def)
    moreover have "strict_prefix a (fst (walkSegs [] es ! j))"
      using nth [OF that(1)] that(3) by simp
    moreover have "j < length (walkSegs [] es)" using that(1) len by simp
    moreover note walkSegs_parentsFirst [of "[]" es]
    ultimately obtain i where i: "i < j" "walkSegs [] es ! i = (a, ''directory'')"
      unfolding parentsFirst_def by blast
    then have "?f (xs ! i) = (a, ''directory'')"
      using nth [of i] that(1) by simp
    then show ?thesis using i(1) by (intro exI [of _ i]) simp
  qed
  show ?thesis using A B by blast
qed

section \<open>The operation ledger\<close>

text \<open>
  Whatever the state and the message, \<^verbatim>\<open>handleServerChange\<close> and the \<^verbatim>\<open>fileContent\<close>
  handler return with their key deleted and with no timer added: their \<^verbatim>\<open>finally\<close>
  block deletes the key itself.
\<close>

lemma handleServerChange_key_gone:
  "ch_event data @ ''-'' @ ch_path data \<notin> activeOperations (handleServerChange st data)"
  by (simp add: handleServerChange_def Let_def)

lemma serverChangeTry_timers: "timers (serverChangeTry st data fullPath) = timers st"
  by (simp add: serverChangeTry_def split: option.splits sum.splits)

lemma handleServerChange_timers: "timers (handleServerChange st data) = timers st"
  by (simp add: handleServerChange_def Let_def serverChangeTry_timers)

lemma on_fileContent_key_gone:
  "''write-'' @ fc_path data \<notin> activeOperations (on_fileContent st data)"
  by (simp add: on_fileContent_def Let_def)

lemma on_fileContent_timers: "timers (on_fileContent st data) = timers st"
  by (simp add: on_fileContent_def Let_def split: option.splits sum.splits)

text \<open>
  C1. The claim: the key of a remotely received mutation is registered before the write
  and released only once 500 ms have passed. Run on the steady edge, the broadcast of a
  new file \<^verbatim>\<open>n.txt\<close> and the content reply for it are both written to disk; when either
  handler returns, at the clock value it started with, the ledger is empty again and no
  release is pending. The handler of a local change, run on the same state, leaves its
  key registered with a release due 500 ms later: the key is still there after 499 ms
  and gone after 500 ms.
\<close>

theorem remote_apply_releases_key_at_once:
  "fs_stat (efs (on_fileSystemChange steadyEdge addNote)) ''/home/local/n.txt''
     = Inr (File ''aGk='' 420)
   \<and> activeOperations (on_fileSystemChange steadyEdge addNote) = {}
   \<and> timers (on_fileSystemChange steadyEdge addNote) = []
   \<and> clock (on_fileSystemChange steadyEdge addNote) = clock steadyEdge
   \<and> fs_stat (efs (on_fileContent steadyEdge noteContent)) ''/home/local/n.txt''
     = Inr (File ''aGk='' 420)
   \<and> activeOperations (on_fileContent steadyEdge noteContent) = {}
   \<and> timers (on_fileContent steadyEdge noteContent) = []
   \<and> clock (on_fileContent steadyEdge noteContent) = clock steadyEdge
   \<and> activeOperations (handleLocalChange steadyEdge ''add'' ''/home/local/a.txt'')
     = {''add-a.txt''}
   \<and> timers (handleLocalChange steadyEdge ''add'' ''/home/local/a.txt'')
     = [(500, ''add-a.txt'')]
   \<and> activeOperations (advance 499 (handleLocalChange steadyEdge ''add'' ''/home/local/a.txt''))
     = {''add-a.txt''}
   \<and> activeOperations (advance 500 (handleLocalChange steadyEdge ''add'' ''/home/local/a.txt''))
     = {}"
  by (simp add: edge_defs example_defs path_defs fs_defs advance_def Let_def)

text \<open>
  C2. The claim: an event of the edge's own change source for the path of a mutation it
  has just applied produces no outbound \<^verbatim>\<open>fileOperation\<close>. On the steady edge the
  broadcast of \<^verbatim>\<open>n.txt\<close> is applied and the watcher then reports \<^verbatim>\<open>add\<close> for that file with
  no time in between: the edge sends a \<^verbatim>\<open>chmod\<close> and a \<^verbatim>\<open>write\<close> for it to the hub. The
  same happens after a content reply.
\<close>

theorem self_echo_is_sent_to_hub:
  "emitted (edgeWatcherEvent (on_fileSystemChange steadyEdge addNote) ''add'' ''/home/local/n.txt'')
     = [FileOperation (chmodOp ''n.txt'' 420), FileOperation (writeOp ''n.txt'' ''aGk='')]
   \<and> emitted (edgeWatcherEvent (on_fileContent steadyEdge noteContent) ''add'' ''/home/local/n.txt'')
     = [FileOperation (chmodOp ''n.txt'' 420), FileOperation (writeOp ''n.txt'' ''aGk='')]"
  by (simp add: edge_defs example_defs path_defs fs_defs Let_def)

text \<open>
  C3. The claim: the key of an event is its kind family (\<^verbatim>\<open>write\<close>, \<^verbatim>\<open>delete\<close>, \<^verbatim>\<open>mkdir\<close>,
  \<^verbatim>\<open>chmod\<close>) with its path, so a local Added and a remote Modified of one path meet on one
  key and suppress each other. The handlers of local and of remote changes build the key
  they register and look up from the event name as it comes (\<^verbatim>\<open>add-a.txt\<close>,
  \<^verbatim>\<open>change-a.txt\<close>). While the key of a remote \<^verbatim>\<open>change\<close> of \<^verbatim>\<open>a.txt\<close> is held, a local \<^verbatim>\<open>add\<close>
  of \<^verbatim>\<open>a.txt\<close> is sent to the hub, and while the key of a local \<^verbatim>\<open>add\<close> is held, a remote
  \<^verbatim>\<open>change\<close> is applied; only a key with the same event name stops either. The family
  keys are what \<^verbatim>\<open>syncWithServer\<close> and the \<^verbatim>\<open>fileContent\<close> handler register and no handler
  looks up: with \<^verbatim>\<open>write-a.txt\<close> held a local \<^verbatim>\<open>add\<close> of \<^verbatim>\<open>a.txt\<close> is sent, and after the
  initial sync the ledger holds \<^verbatim>\<open>write-a.txt\<close> and \<^verbatim>\<open>write-docs/b.txt\<close> and a local
  \<^verbatim>\<open>change\<close> of \<^verbatim>\<open>a.txt\<close> is sent to the hub all the same.
\<close>

theorem added_and_modified_do_not_suppress_each_other:
  "emitted (handleLocalChange (steadyEdge\<lparr>activeOperations := {''change-a.txt''}\<rparr>)
              ''add'' ''/home/local/a.txt'')
     = [FileOperation (writeOp ''a.txt'' ''aGVsbG8='')]
   \<and> fs_stat (efs (on_fileSystemChange (steadyEdge\<lparr>activeOperations := {''add-a.txt''}\<rparr>) changeA))
        ''/home/local/a.txt''
     = Inr (File ''Yg=='' 420)
   \<and> emitted (handleLocalChange (steadyEdge\<lparr>activeOperations := {''add-a.txt''}\<rparr>)
              ''add'' ''/home/local/a.txt'')
     = []
   \<and> efs (on_fileSystemChange (steadyEdge\<lparr>activeOperations := {''change-a.txt''}\<rparr>) changeA)
     = edgeDisk
   \<and> emitted (handleLocalChange (steadyEdge\<lparr>activeOperations := {''write-a.txt''}\<rparr>)
              ''add'' ''/home/local/a.txt'')
     = [FileOperation (writeOp ''a.txt'' ''aGVsbG8='')]
   \<and> snd (on_fileSystemState joiningEdge hubState) = None
   \<and> activeOperations (fst (on_fileSystemState joiningEdge hubState))
     = {''write-a.txt'', ''write-docs/b.txt''}
   \<and> emitted (edgeWatcherEvent (fst (on_fileSystemState joiningEdge hubState))
              ''change'' ''/home/local/a.txt'')
     = [RequestFileContent ''a.txt'', RequestFileContent ''docs/b.txt'',
        FileOperation (writeOp ''a.txt'' ''aGVsbG8='')]"
  by code_simp

section \<open>The mode cache\<close>

text \<open>
  C8. The claim: every removal of a path from the local filesystem removes its entry from
  the mode cache at once. The steady edge caches mode 0644 for \<^verbatim>\<open>a.txt\<close> and \<^verbatim>\<open>stale.txt\<close>.
  After the broadcast \<^verbatim>\<open>unlink a.txt\<close> the file is gone and its cache entry is still
  there; after the initial sync of a reconnect, against a hub that has no \<^verbatim>\<open>stale.txt\<close>,
  that file is gone and its cache entry is still there. The handler of a local \<^verbatim>\<open>unlink\<close> does drop the
  entry.
\<close>

theorem remote_delete_keeps_mode_entry:
  "pathExists (efs (on_fileSystemChange steadyEdge unlinkA)) ''/home/local/a.txt'' = False
   \<and> fileModes (on_fileSystemChange steadyEdge unlinkA) ''a.txt'' = Some 420
   \<and> snd (on_fileSystemState steadyEdge hubState) = None
   \<and> pathExists (efs (fst (on_fileSystemState steadyEdge hubState))) ''/home/local/stale.txt''
     = False
   \<and> fileModes (fst (on_fileSystemState steadyEdge hubState)) ''stale.txt'' = Some 420
   \<and> fileModes (handleLocalChange steadyEdge ''unlink'' ''/home/local/a.txt'') ''a.txt'' = None"
  by code_simp

section \<open>Broadcasts without content\<close>

text \<open>
  C10. An \<^verbatim>\<open>add\<close> or \<^verbatim>\<open>change\<close> broadcast whose content is not a string changes nothing
  at the edge: the handler returns the state it was given, so the filesystem is the same
  and nothing has been emitted to the hub. The handler has no exceptional outcome, the
  \<^verbatim>\<open>break\<close> being inside the \<^verbatim>\<open>try\<close> block.
\<close>

theorem change_without_content_does_nothing:
  assumes "ch_event data = ''add'' \<or> ch_event data = ''change''"
    and "ch_content data = None"
  shows "on_fileSystemChange st data = st
         \<and> efs (on_fileSystemChange st data) = efs st
         \<and> emitted (on_fileSystemChange st data) = emitted st"
proof -
  have hs: "handleServerChange st data = st"
    if "ch_event data @ ''-'' @ ch_path data \<notin> activeOperations st"
    using that assms by (auto simp: handleServerChange_def serverChangeTry_def Let_def)
  have same: "on_fileSystemChange st data = st"
  proof (cases "ch_event data @ ''-'' @ ch_path data \<in> activeOperations st")
    case True
    then show ?thesis by (simp add: on_fileSystemChange_def Let_def)
  next
    case False
    then show ?thesis using hs assms(1)
      by (auto simp: on_fileSystemChange_def Let_def split: option.splits)
  qed
  then show ?thesis by simp
qed

theorem change_without_content_does_nothing_witness:
  "(ch_event addWithoutContent = ''add'' \<or> ch_event addWithoutContent = ''change'')
   \<and> ch_content addWithoutContent = None
   \<and> on_fileSystemChange steadyEdge addWithoutContent = steadyEdge
   \<and> efs (on_fileSystemChange steadyEdge addWithoutContent) = edgeDisk
   \<and> emitted (on_fileSystemChange steadyEdge addWithoutContent) = []"
proof -
  have ev: "ch_event addWithoutContent = ''add'' \<or> ch_event addWithoutContent = ''change''"
    by (simp add: addWithoutContent_def)
  have co: "ch_content addWithoutContent = None"
    by (simp add: addWithoutContent_def)
  from change_without_content_does_nothing [OF ev co, of steadyEdge] ev co
  show ?thesis by (simp add: steadyEdge_def)
qed

section \<open>Paths taken from messages\<close>




section \<open>Content queries\<close>

text \<open>
  C9. The claim: a content query is answered with the file's bytes when the path
  resolves under the hub root to a regular file, and with a not-found error to the
  querying session otherwise; no other session receives anything. As amended: the path
  is resolved with \<^verbatim>\<open>path.join(watchDir, path)\<close> and is not checked against the root. When
  the resolved path is a regular file that the hub may read, its bytes go to the querying
  session; when it is a regular file that the hub may not read, the \<^verbatim>\<open>operationError\<close>
  \<^verbatim>\<open>Error reading file\<close> goes to that session; otherwise (nothing that can be reached is
  there, or a directory, or a regular file named with a slash at the end) the not-found
  \<^verbatim>\<open>operationError\<close> goes to that session. In every case the handler sends this one
  message, to the querying socket alone, and changes neither the files nor the set of
  sessions. For a path without a \<^verbatim>\<open>..\<close> segment the joined path, taken as its list of
  segments, is the root or extends it.
\<close>

theorem content_query_reply:
  "on_requestFileContent h sid p =
     send (ToSocket sid)
       (case fs_stat (hfs h) (posix_join (watchDir h) p) of
          Inr (File c m) \<Rightarrow>
            if ownerCanRead m then
              FileContent
                \<lparr>fc_path = p, fc_content = Some (toBase64 c), fc_encoding = Some ''base64''\<rparr>
            else
              OperationError
                \<lparr>oe_message = ''Error reading file '' @ p,
                 oe_operation = ''requestFileContent'', oe_path = Some p\<rparr>
        | _ \<Rightarrow>
            OperationError
              \<lparr>oe_message = ''File not found on server: '' @ p,
               oe_operation = ''requestFileContent'', oe_path = Some p\<rparr>) h
   \<and> (\<exists>reply. sent (on_requestFileContent h sid p) = sent h @ [(ToSocket sid, reply)])
   \<and> receivers (on_requestFileContent h sid p) (ToSocket sid) = {sid}
   \<and> hfs (on_requestFileContent h sid p) = hfs h
   \<and> clients (on_requestFileContent h sid p) = clients h
   \<and> (isAbsolute (watchDir h) \<and> ''..'' \<notin> set (splitSlash p)
        \<longrightarrow> prefix (pathSegs (watchDir h)) (pathSegs (posix_join (watchDir h) p)))"
proof -
  have a: "on_requestFileContent h sid p =
     send (ToSocket sid)
       (case fs_stat (hfs h) (posix_join (watchDir h) p) of
          Inr (File c m) \<Rightarrow>
            if ownerCanRead m then
              FileContent
                \<lparr>fc_path = p, fc_content = Some (toBase64 c), fc_encoding = Some ''base64''\<rparr>
            else
              OperationError
                \<lparr>oe_message = ''Error reading file '' @ p,
                 oe_operation = ''requestFileContent'', oe_path = Some p\<rparr>
        | _ \<Rightarrow>
            OperationError
              \<lparr>oe_message = ''File not found on server: '' @ p,
               oe_operation = ''requestFileContent'', oe_path = Some p\<rparr>) h"
    by (auto simp: on_requestFileContent_def Let_def pathExists_def readFile_def isFile_def
          split: sum.splits node.splits)
  have b: "\<exists>reply. sent (on_requestFileContent h sid p) = sent h @ [(ToSocket sid, reply)]"
    by (subst a) (simp add: send_def)
  have c: "receivers (on_requestFileContent h sid p) (ToSocket sid) = {sid}"
    by (simp add: receivers_def)
  have d: "hfs (on_requestFileContent h sid p) = hfs h"
    "clients (on_requestFileContent h sid p) = clients h"
    by (subst a, simp add: send_def)+
  show ?thesis using a b c d join_under_root by blast
qed

text \<open>
  On a hub whose root holds the readable file \<^verbatim>\<open>a.txt\<close>, the file \<^verbatim>\<open>locked.txt\<close> of mode 0
  and the directory \<^verbatim>\<open>closed\<close> of mode 0 with a file in it: \<^verbatim>\<open>a.txt\<close> is answered with its
  bytes, \<^verbatim>\<open>locked.txt\<close> with the read error, and \<^verbatim>\<open>a.txt/\<close>, \<^verbatim>\<open>closed/b.txt\<close> and \<^verbatim>\<open>closed\<close>
  with the not-found error.
\<close>

theorem content_query_reply_witness:
  "isAbsolute (watchDir lockedHub) \<and> ''..'' \<notin> set (splitSlash ''a.txt'')
   \<and> prefix (pathSegs (watchDir lockedHub)) (pathSegs (posix_join (watchDir lockedHub) ''a.txt''))
   \<and> sent (on_requestFileContent lockedHub ''s1'' ''a.txt'')
     = [(ToSocket ''s1'',
         FileContent
           \<lparr>fc_path = ''a.txt'', fc_content = Some ''aGVsbG8='',
            fc_encoding = Some ''base64''\<rparr>)]
   \<and> sent (on_requestFileContent lockedHub ''s2'' ''locked.txt'')
     = [(ToSocket ''s2'',
         OperationError
           \<lparr>oe_message = ''Error reading file locked.txt'',
            oe_operation = ''requestFileContent'', oe_path = Some ''locked.txt''\<rparr>)]
   \<and> sent (on_requestFileContent lockedHub ''s1'' ''a.txt/'')
     = [(ToSocket ''s1'',
         OperationError
           \<lparr>oe_message = ''File not found on server: a.txt/'',
            oe_operation = ''requestFileContent'', oe_path = Some ''a.txt/''\<rparr>)]
   \<and> sent (on_requestFileContent lockedHub ''s1'' ''closed/b.txt'')
     = [(ToSocket ''s1'',
         OperationError
           \<lparr>oe_message = ''File not found on server: closed/b.txt'',
            oe_operation = ''requestFileContent'', oe_path = Some ''closed/b.txt''\<rparr>)]
   \<and> sent (on_requestFileContent lockedHub ''s2'' ''closed'')
     = [(ToSocket ''s2'',
         OperationError
           \<lparr>oe_message = ''File not found on server: closed'',
            oe_operation = ''requestFileContent'', oe_path = Some ''closed''\<rparr>)]"
proof -
  have a: "isAbsolute (watchDir lockedHub)"
    by (simp add: lockedHub_def isAbsolute_def)
  have b: "''..'' \<notin> set (splitSlash ''a.txt'')"
    by simp
  have f: "fs_stat (hfs lockedHub) (posix_join (watchDir lockedHub) ''a.txt'')
             = Inr (File ''aGVsbG8='' 420)"
    "fs_stat (hfs lockedHub) (posix_join (watchDir lockedHub) ''locked.txt'')
             = Inr (File ''eA=='' 0)"
    "fs_stat (hfs lockedHub) (posix_join (watchDir lockedHub) ''a.txt/'') = Inl ENOTDIR"
    "fs_stat (hfs lockedHub) (posix_join (watchDir lockedHub) ''closed/b.txt'') = Inl EACCES"
    "fs_stat (hfs lockedHub) (posix_join (watchDir lockedHub) ''closed'')
             = Inr (Dir 0 [(''b.txt'', File ''eA=='' 420)])"
    by (simp_all add: lockedHub_def lockedDisk_def path_defs fs_defs)
  have r: "ownerCanRead 420" "\<not> ownerCanRead 0"
    by (simp_all add: ownerCanRead_def)
  have s: "sent lockedHub = []"
    by (simp add: lockedHub_def)
  from content_query_reply [of lockedHub "''s1''" "''a.txt''"]
    content_query_reply [of lockedHub "''s2''" "''locked.txt''"]
    content_query_reply [of lockedHub "''s1''" "''a.txt/''"]
    content_query_reply [of lockedHub "''s1''" "''closed/b.txt''"]
    content_query_reply [of lockedHub "''s2''" "''closed''"] a b f r s
  show ?thesis by (simp add: send_def toBase64_def)
qed

text \<open>
  The query \<^verbatim>\<open>../secret.key\<close>, sent to the hub rooted at \<^verbatim>\<open>/srv/shared\<close>, resolves to
  \<^verbatim>\<open>/srv/secret.key\<close>, which is not under the root; the hub answers with the bytes of that
  file, not with an error.
\<close>

theorem content_query_outside_root_is_answered:
  "posix_join (watchDir twoClientHub) ''../secret.key'' = ''/srv/secret.key''
   \<and> \<not> prefix (pathSegs (watchDir twoClientHub)) (pathSegs ''/srv/secret.key'')
   \<and> sent (on_requestFileContent twoClientHub ''s1'' ''../secret.key'')
     = [(ToSocket ''s1'',
         FileContent
           \<lparr>fc_path = ''../secret.key'', fc_content = Some ''c2VjcmV0'',
            fc_encoding = Some ''base64''\<rparr>)]"
  by (simp add: hub_defs example_defs path_defs fs_defs Let_def)

section \<open>Snapshots\<close>

text \<open>
  C7. In a snapshot built by the hub or by the edge, a directory entry stands before
  every entry whose path lies under it; and for every entry, each directory above it
  (each proper, non-empty prefix of its path) has its own directory entry earlier in the
  list, so replaying the entries in order never meets a parent that has not been created.
  Paths are compared by their segments. The tree is one that \<^verbatim>\<open>readdir\<close> can report.
\<close>

theorem snapshot_lists_directory_before_descendants:
  assumes "wfNode fs"
    and "xs = getFileSystemState fs root \<or> xs = getLocalFiles fs root"
  shows "(\<forall>i j. i < length xs \<and> j < length xs \<and> e_type (xs ! i) = ''directory''
            \<and> strict_prefix (splitSlash (e_path (xs ! i))) (splitSlash (e_path (xs ! j)))
          \<longrightarrow> i < j)
       \<and> (\<forall>j a. j < length xs \<and> a \<noteq> [] \<and> strict_prefix a (splitSlash (e_path (xs ! j)))
          \<longrightarrow> (\<exists>i<j. e_type (xs ! i) = ''directory'' \<and> splitSlash (e_path (xs ! i)) = a))"
proof -
  from assms(2) have "xs = getLocalFiles fs root"
    by (simp add: snapshots_equal)
  then show ?thesis using getLocalFiles_order [OF assms(1)] by blast
qed

theorem snapshot_lists_directory_before_descendants_witness:
  "wfNode hubDisk
   \<and> map e_path (getFileSystemState hubDisk ''/srv/shared'') = [''a.txt'', ''docs'', ''docs/b.txt'']
   \<and> (\<exists>i<2. e_type (getFileSystemState hubDisk ''/srv/shared'' ! i) = ''directory''
              \<and> splitSlash (e_path (getFileSystemState hubDisk ''/srv/shared'' ! i)) = [''docs''])"
proof -
  let ?xs = "getFileSystemState hubDisk ''/srv/shared''"
  have wf: "wfNode hubDisk"
    by (simp add: hubDisk_def)
  have xs: "?xs =
      [\<lparr>e_path = ''a.txt'', e_type = ''file'', e_size = Some 5\<rparr>,
       \<lparr>e_path = ''docs'', e_type = ''directory'', e_size = None\<rparr>,
       \<lparr>e_path = ''docs/b.txt'', e_type = ''file'', e_size = Some 1\<rparr>]"
    by (simp add: getFileSystemState_def hubDisk_def path_defs fs_defs)
  have pre: "2 < length ?xs \<and> [''docs''] \<noteq> []
             \<and> strict_prefix [''docs''] (splitSlash (e_path (?xs ! 2)))"
    by (simp add: xs strict_prefix_def)
  from snapshot_lists_directory_before_descendants [OF wf disjI1 [OF refl], of "''/srv/shared''"]
  have "\<forall>j a. j < length ?xs \<and> a \<noteq> [] \<and> strict_prefix a (splitSlash (e_path (?xs ! j)))
          \<longrightarrow> (\<exists>i<j. e_type (?xs ! i) = ''directory'' \<and> splitSlash (e_path (?xs ! i)) = a)"
    by blast
  with pre have "\<exists>i<2. e_type (?xs ! i) = ''directory'' \<and> splitSlash (e_path (?xs ! i)) = [''docs'']"
    by blast
  then show ?thesis using wf xs by simp
qed

text \<open>
  C6. The claim: no path whose last segment starts with a dot appears in a snapshot, and
  the change source never delivers a notification for such a path. The snapshot walk
  skips every name that starts with a dot; the watchers are given an expression that asks
  for one more character after the dot, which a line terminator is not. For a file whose
  name is a dot, a line feed and \<^verbatim>\<open>x\<close>, the walk leaves it out of the snapshot, as it does
  \<^verbatim>\<open>.git\<close>; the expression does not match its path, and when the file is deleted the hub
  broadcasts the event to every session and the edge sends a \<^verbatim>\<open>delete\<close> to the hub. A
  name of a dot, U+2028 and \<^verbatim>\<open>x\<close> is not matched either. A path below \<^verbatim>\<open>.git\<close> is matched
  and nothing is sent for it.
\<close>

theorem dot_newline_name_is_delivered:
  "startsWith (last (splitSlash hiddenOnHub)) ''.''
   \<and> ignored hiddenOnHub = False
   \<and> sent (hubWatcherEvent twoClientHub ''unlink'' hiddenOnHub)
     = [(ToAll, FileSystemChange
          \<lparr>ch_event = ''unlink'', ch_path = [CHR ''.'', CHR 0x0A, CHR ''x''],
           ch_type = Some ''file'', ch_content = None, ch_encoding = None, ch_mode = None\<rparr>)]
   \<and> startsWith (last (splitSlash hiddenOnEdge)) ''.''
   \<and> ignored hiddenOnEdge = False
   \<and> emitted (edgeWatcherEvent steadyEdge ''unlink'' hiddenOnEdge)
     = [FileOperation (baseOp ''delete'' [CHR ''.'', CHR 0x0A, CHR ''x''])]
   \<and> map e_path (getFileSystemState hiddenDisk ''/srv/shared'') = [''a.txt'']
   \<and> map e_path (getLocalFiles hiddenDisk ''/srv/shared'') = [''a.txt'']
   \<and> ignored hiddenSeparatorOnHub = False
   \<and> ignored ''/srv/shared/.git/config''
   \<and> hubWatcherEvent twoClientHub ''add'' ''/srv/shared/.git/config'' = twoClientHub
   \<and> edgeWatcherEvent steadyEdge ''add'' ''/home/local/.git/config'' = steadyEdge"
  by (simp add: hub_defs edge_defs example_defs path_defs fs_defs Let_def)

section \<open>Initial sync\<close>

text \<open>
  C5. The claim: during the initial sync the edge deletes every local entry absent from
  the hub snapshot, ensures a directory for every hub directory entry and issues a
  content query for every hub file entry. \<^verbatim>\<open>syncWithServer\<close> compares paths only and has
  no \<^verbatim>\<open>try\<close> around its filesystem calls. Where the local root holds a regular file
  \<^verbatim>\<open>docs\<close> and the hub snapshot lists the directory \<^verbatim>\<open>docs\<close> and the file \<^verbatim>\<open>a.txt\<close>, nothing
  is deleted, \<^verbatim>\<open>ensureDir\<close> fails on the file and \<^verbatim>\<open>syncWithServer\<close> ends there: \<^verbatim>\<open>docs\<close> is
  still a file, no content query has been sent, and the handler of \<^verbatim>\<open>fileSystemState\<close>
  leaves \<^verbatim>\<open>isInitialSync\<close> set and does not start the watcher. On the edge whose \<^verbatim>\<open>docs\<close> is a
  directory the sync runs to its end: \<^verbatim>\<open>stale.txt\<close> is gone, both content queries have been
  sent and the watcher runs.
\<close>

theorem kind_clash_aborts_sync:
  "snd (syncWithServer (joiningEdge\<lparr>efs := clashDisk\<rparr>) clashState) = Some EEXIST
   \<and> fs_stat (efs (fst (syncWithServer (joiningEdge\<lparr>efs := clashDisk\<rparr>) clashState)))
        ''/home/local/docs'' = Inr (File ''eA=='' 420)
   \<and> emitted (fst (syncWithServer (joiningEdge\<lparr>efs := clashDisk\<rparr>) clashState)) = []
   \<and> snd (on_fileSystemState (joiningEdge\<lparr>efs := clashDisk\<rparr>) clashState) = Some EEXIST
   \<and> isInitialSync (fst (on_fileSystemState (joiningEdge\<lparr>efs := clashDisk\<rparr>) clashState)) = True
   \<and> watching (fst (on_fileSystemState (joiningEdge\<lparr>efs := clashDisk\<rparr>) clashState)) = False
   \<and> snd (on_fileSystemState joiningEdge hubState) = None
   \<and> pathExists (efs (fst (on_fileSystemState joiningEdge hubState))) ''/home/local/stale.txt''
     = False
   \<and> emitted (fst (on_fileSystemState joiningEdge hubState))
     = [RequestFileContent ''a.txt'', RequestFileContent ''docs/b.txt'']
   \<and> isInitialSync (fst (on_fileSystemState joiningEdge hubState)) = False
   \<and> watching (fst (on_fileSystemState joiningEdge hubState)) = True"
  by code_simp

end
